theory Spec2Isabelle
  imports Main "HOL-Library.Char_ord" "HOL-Library.List_Lexorder"
begin

section \<open>Data model\<close>

text \<open>
  The errors the two aligners of \<^verbatim>\<open>spateo/alignment/morpho_alignment.py\<close> can raise:
  a missing dictionary key or data-frame column, the \<^verbatim>\<open>.cat\<close> accessor on a column that
  is not categorical, an index out of range, and a failure inside one of the imported
  primitives (\<^verbatim>\<open>BA_align\<close>, \<^verbatim>\<open>BA_transform\<close>, \<^verbatim>\<open>BA_transform_and_assignment\<close>,
  \<^verbatim>\<open>downsampling\<close>).
\<close>

datatype error = KeyError | AttributeError | IndexError | ExternalError

text \<open>
  A column of \<^verbatim>\<open>.obs\<close>: a pandas categorical series (its categories and its per-point
  values, a missing value being \<open>None\<close>) or a series of another dtype.
\<close>

datatype column = Categorical "string list" "string option list" | NonCategorical

text \<open>
  An \<^verbatim>\<open>AnnData\<close> sample, as far as the aligners touch it: the coordinate slots
  \<^verbatim>\<open>.obsm\<close>, the key-value store \<^verbatim>\<open>.uns\<close> (its keys may be \<^verbatim>\<open>None\<close>), the
  per-point annotations \<^verbatim>\<open>.obs\<close> and the rest (expression matrix, layers, variables),
  which the aligners only hand on. Arrays (\<open>'n\<close>) are opaque values: the aligners
  copy and pass them, never look inside, and the statements compare them by value. What
  \<^verbatim>\<open>.uns\<close> holds (\<open>'f\<close>) are the deformation fields; the store below takes them
  as references to field objects, so that one object can be told from a copy of it.
\<close>

record ('n, 'f, 'x) anndata =
  obsm :: "string \<rightharpoonup> 'n"
  uns :: "string option \<rightharpoonup> 'f"
  obs :: "string \<rightharpoonup> column"
  expr :: 'x

text \<open>
  A dense matrix with its shape, as \<^verbatim>\<open>numpy\<close> keeps it (a list of rows alone would lose
  the number of columns of a matrix with no row). The entries of the label matrix are the
  floats 0.0 and 1.0, written as integers.
\<close>

record mat =
  nrows :: nat
  ncols :: nat
  cells :: "int list list"

section \<open>The label similarity matrix of \<^verbatim>\<open>morpho_align\<close>\<close>

text \<open>\<^verbatim>\<open>np.union1d\<close>: the sorted union without duplicates.\<close>

definition union1d :: "string list \<Rightarrow> string list \<Rightarrow> string list" where
  "union1d xs ys = sort (remdups (xs @ ys))"

text \<open>\<^verbatim>\<open>codes[cat_series == cat] = code\<close>: a masked assignment; a missing value matches no category.\<close>

definition assign_code :: "string option list \<Rightarrow> string \<Rightarrow> int \<Rightarrow> int list \<Rightarrow> int list" where
  "assign_code vals cat code codes =
     map (\<lambda>(v, c). if v = Some cat then code else c) (zip vals codes)"

text \<open>
  \<^verbatim>\<open>for code, cat in enumerate(UnionCategories): if cat == "unknown": code = -1; ...\<close>
\<close>

fun code_loop ::
  "(nat \<times> string) list \<Rightarrow> string option list \<Rightarrow> string option list
     \<Rightarrow> int list \<times> int list \<Rightarrow> int list \<times> int list" where
  "code_loop [] catA catB acc = acc"
| "code_loop ((code, cat) # rest) catA catB (catACode, catBCode) =
     (let code' = (if cat = ''unknown'' then - 1 else int code)
      in code_loop rest catA catB
           (assign_code catA cat code' catACode, assign_code catB cat code' catBCode))"

text \<open>
  Lines 76 to 82: the integer codes of the two label arrays over the union of the
  categories, both arrays starting at zero.
\<close>

definition cat_codes ::
  "string list \<Rightarrow> string option list \<Rightarrow> string list \<Rightarrow> string option list
     \<Rightarrow> int list \<times> int list" where
  "cat_codes catsA catA catsB catB =
     (let UnionCategories = union1d catsA catsB
      in code_loop (List.enumerate 0 UnionCategories) catA catB
           (replicate (length catA) 0, replicate (length catB) 0))"

definition zeros :: "nat \<Rightarrow> nat \<Rightarrow> mat" where
  "zeros r c = \<lparr>nrows = r, ncols = c, cells = replicate r (replicate c 0)\<rparr>"

text \<open>\<^verbatim>\<open>M[:, index] = vec\<close>\<close>

definition set_col :: "mat \<Rightarrow> nat \<Rightarrow> int list \<Rightarrow> mat" where
  "set_col M index vec = M\<lparr>cells := map (\<lambda>(row, v). row[index := v]) (zip (cells M) vec)\<rparr>"

text \<open>\<^verbatim>\<open>M.T\<close>\<close>

definition transpose_mat :: "mat \<Rightarrow> mat" where
  "transpose_mat M =
     \<lparr>nrows = ncols M, ncols = nrows M,
      cells = map (\<lambda>j. map (\<lambda>row. row ! j) (cells M)) [0..<ncols M]\<rparr>"

text \<open>
  Lines 84 and 85, \<^verbatim>\<open>for index in range(catB.shape[0]): LabelSimMat[:, index] = catACode != catBCode[i]\<close>,
  where \<open>i\<close> is the index of the pair in the outer loop. Reading \<^verbatim>\<open>catBCode[i]\<close>
  raises when \<open>i\<close> is not an index of \<open>catBCode\<close>.
\<close>

fun fill_cols :: "int list \<Rightarrow> int list \<Rightarrow> nat \<Rightarrow> nat list \<Rightarrow> mat \<Rightarrow> error + mat" where
  "fill_cols catACode catBCode i [] M = Inr M"
| "fill_cols catACode catBCode i (index # rest) M =
     (if i < length catBCode
      then fill_cols catACode catBCode i rest
             (set_col M index (map (\<lambda>c. if c \<noteq> catBCode ! i then 1 else 0) catACode))
      else Inl IndexError)"

text \<open>Lines 83 to 86, from the two code arrays.\<close>

definition LabelSimMat_of_codes :: "nat \<Rightarrow> int list \<Rightarrow> int list \<Rightarrow> error + mat" where
  "LabelSimMat_of_codes i catACode catBCode =
     (case fill_cols catACode catBCode i [0..<length catBCode]
             (zeros (length catACode) (length catBCode)) of
        Inl e \<Rightarrow> Inl e
      | Inr M \<Rightarrow> Inr (transpose_mat M))"

text \<open>
  Lines 72 to 88 for the pair with loop index \<open>i\<close>: without a label key no matrix is built;
  with one, both samples' columns are read (\<^verbatim>\<open>KeyError\<close> when missing), both must be
  categorical (\<^verbatim>\<open>.cat\<close> raises otherwise), and the matrix is built from the codes.
\<close>

definition pair_label_sim ::
  "string option \<Rightarrow> nat \<Rightarrow> ('n, 'f, 'x) anndata \<Rightarrow> ('n, 'f, 'x) anndata \<Rightarrow> error + mat option" where
  "pair_label_sim label_key i modelA modelB =
     (case label_key of
        None \<Rightarrow> Inr None
      | Some lk \<Rightarrow>
          (case obs modelA lk of
             None \<Rightarrow> Inl KeyError
           | Some colA \<Rightarrow>
               (case obs modelB lk of
                  None \<Rightarrow> Inl KeyError
                | Some colB \<Rightarrow>
                    (case colA of
                       NonCategorical \<Rightarrow> Inl AttributeError
                     | Categorical catsA catA \<Rightarrow>
                         (case colB of
                            NonCategorical \<Rightarrow> Inl AttributeError
                          | Categorical catsB catB \<Rightarrow>
                              (case cat_codes catsA catA catsB catB of
                                 (catACode, catBCode) \<Rightarrow>
                                   (case LabelSimMat_of_codes i catACode catBCode of
                                      Inl e \<Rightarrow> Inl e
                                    | Inr M \<Rightarrow> Inr (Some M))))))))"

section \<open>Parameters and imported primitives\<close>

text \<open>
  The keyword parameters the two aligners share. \<open>passthrough\<close> stands for the ones that
  are only handed on to the primitives (\<^verbatim>\<open>layer\<close>, \<^verbatim>\<open>genes\<close>, \<^verbatim>\<open>mode\<close>,
  \<^verbatim>\<open>dissimilarity\<close>, \<^verbatim>\<open>max_iter\<close>, \<^verbatim>\<open>dtype\<close>, \<^verbatim>\<open>device\<close>, \<^verbatim>\<open>verbose\<close>,
  \<^verbatim>\<open>**kwargs\<close>).
\<close>

record 'o params =
  spatial_key :: string
  key_added :: string
  iter_key_added :: "string option"
  vecfld_key_added :: "string option"
  passthrough :: 'o

text \<open>
  Modelled from the spec: the primitives imported from \<^verbatim>\<open>.methods\<close>,
  \<^verbatim>\<open>.transform\<close> and \<^verbatim>\<open>.utils\<close> are not among the sources. They are
  parameters of the model, with the arguments the aligners pass and the results the
  aligners unpack; each may fail.
  \<^item> \<open>BA_align\<close> receives its keyword parameters, the \<^verbatim>\<open>added_similarity\<close> matrix and the
    two samples; called with \<^verbatim>\<open>inplace=True\<close> it may write on both samples, so it returns
    their new contents with the assignment matrix and the variance estimate.
  \<^item> \<open>BA_transform\<close> receives the field and the query points and returns three arrays.
  \<^item> \<open>BA_transform_and_assignment\<close> receives \<^verbatim>\<open>spatial_key\<close>, the field and
    \<^verbatim>\<open>samples=[modelB, modelA]\<close>, and returns the assignment matrix and the coordinates.
  \<^item> \<open>downsampling\<close> receives \<^verbatim>\<open>n_sampling\<close>, \<^verbatim>\<open>sampling_method\<close>, \<^verbatim>\<open>spatial_key\<close> and
    the samples and returns the reduced samples.
  \<^verbatim>\<open>empty_cache\<close> has no effect on the data and is left out.
\<close>

record ('n, 'f, 'x, 'o) ext =
  BA_align ::
    "'o params \<Rightarrow> mat option \<Rightarrow> ('n, 'f, 'x) anndata \<Rightarrow> ('n, 'f, 'x) anndata
       \<Rightarrow> error + (('n, 'f, 'x) anndata \<times> ('n, 'f, 'x) anndata \<times> 'n \<times> 'n)"
  BA_transform :: "'o \<Rightarrow> 'f \<Rightarrow> 'n \<Rightarrow> error + ('n \<times> 'n \<times> 'n)"
  BA_transform_and_assignment ::
    "'o \<Rightarrow> string \<Rightarrow> 'f \<Rightarrow> ('n, 'f, 'x) anndata \<Rightarrow> ('n, 'f, 'x) anndata \<Rightarrow> error + ('n \<times> 'n)"
  downsampling ::
    "int option \<Rightarrow> string \<Rightarrow> string \<Rightarrow> ('n, 'f, 'x) anndata list
       \<Rightarrow> error + ('n, 'f, 'x) anndata list"

section \<open>The object store\<close>

text \<open>
  Samples are objects: the caller's list and the working lists hold references. The store
  is the list of all sample objects, a reference is an index into it, and a new object is
  appended at the end.
\<close>

type_synonym addr = nat

type_synonym ('n, 'f, 'x) heap = "('n, 'f, 'x) anndata list"

text \<open>
  A deformation field is an object too, and \<^verbatim>\<open>.uns\<close> holds a reference to it. The
  aligners never look inside a field, so its reference is all the model keeps: the
  reference of a field that a primitive made is whatever the primitive returns, and the
  reference of a field made by a deep copy is the reference of the original behind the
  address of the sample object that the copy was made for. A copy of a field therefore
  never has the reference of its original, and two stored references are equal exactly
  when they are the same object.
\<close>

type_synonym fref = "nat list"

text \<open>
  \<^verbatim>\<open>model.copy()\<close>, for the new object at address \<open>a\<close>: arrays, annotations and
  the rest are copied by value, every field in \<^verbatim>\<open>.uns\<close> is deep-copied into a new
  field object.
\<close>

definition deep_copy :: "addr \<Rightarrow> ('n, fref, 'x) anndata \<Rightarrow> ('n, fref, 'x) anndata" where
  "deep_copy a s = s\<lparr>uns := (\<lambda>k. map_option (\<lambda>vecfld. a # vecfld) (uns s k))\<rparr>"

text \<open>\<^verbatim>\<open>[model.copy() for model in models]\<close>: one new object per element, in order.\<close>

definition copy_models ::
  "('n, fref, 'x) heap \<Rightarrow> addr list \<Rightarrow> ('n, fref, 'x) heap \<times> addr list" where
  "copy_models h models =
     (h @ map (\<lambda>k. deep_copy (length h + k) (h ! (models ! k))) [0..<length models],
      [length h ..< length h + length models])"

text \<open>\<^verbatim>\<open>for m in models: m.obsm[dst] = m.obsm[src]\<close>\<close>

fun seed_slot ::
  "string \<Rightarrow> string \<Rightarrow> ('n, 'f, 'x) heap \<Rightarrow> addr list \<Rightarrow> error + ('n, 'f, 'x) heap" where
  "seed_slot src dst h [] = Inr h"
| "seed_slot src dst h (m # rest) =
     (case obsm (h ! m) src of
        None \<Rightarrow> Inl KeyError
      | Some v \<Rightarrow> seed_slot src dst (h[m := (h ! m)\<lparr>obsm := (obsm (h ! m))(dst \<mapsto> v)\<rparr>]) rest)"

text \<open>
  Modelled from the spec: \<^verbatim>\<open>_iteration\<close> of \<^verbatim>\<open>.utils\<close> is not among the sources; the
  spec has the pair index run over \<open>0 .. N - 2\<close>, that is \<^verbatim>\<open>range(n)\<close> for
  \<^verbatim>\<open>n = len(align_models) - 1\<close>, which is empty when \<open>n\<close> is negative.
\<close>

definition iteration :: "int \<Rightarrow> nat list" where
  "iteration n = [0..<nat n]"

text \<open>A \<^verbatim>\<open>for\<close> loop whose body may raise: the first error ends it.\<close>

fun for_loop :: "(nat \<Rightarrow> 's \<Rightarrow> error + 's) \<Rightarrow> nat list \<Rightarrow> 's \<Rightarrow> error + 's" where
  "for_loop body [] s = Inr s"
| "for_loop body (i # rest) s =
     (case body i s of Inl e \<Rightarrow> Inl e | Inr s' \<Rightarrow> for_loop body rest s')"

section \<open>\<^verbatim>\<open>morpho_align\<close>\<close>

text \<open>Lines 57 to 64: four loops over the caller's list \<^verbatim>\<open>models\<close>.\<close>

definition seed_models ::
  "'o params \<Rightarrow> ('n, 'f, 'x) heap \<Rightarrow> addr list \<Rightarrow> error + ('n, 'f, 'x) heap" where
  "seed_models p h models =
     (case seed_slot (spatial_key p) (key_added p) h models of
        Inl e \<Rightarrow> Inl e
      | Inr h1 \<Rightarrow>
          (case seed_slot (spatial_key p) ''Rigid_3d_align_spatial'' h1 models of
             Inl e \<Rightarrow> Inl e
           | Inr h2 \<Rightarrow>
               (case seed_slot (spatial_key p) ''Coarse_alignment'' h2 models of
                  Inl e \<Rightarrow> Inl e
                | Inr h3 \<Rightarrow> seed_slot (spatial_key p) ''optimal_RnA'' h3 models)))"

text \<open>Lines 57 to 67: the state in which the pair loop starts.\<close>

definition morpho_align_init ::
  "'o params \<Rightarrow> ('n, fref, 'x) heap \<Rightarrow> addr list \<Rightarrow> error + (('n, fref, 'x) heap \<times> addr list)" where
  "morpho_align_init p h models =
     (case seed_models p h models of
        Inl e \<Rightarrow> Inl e
      | Inr h' \<Rightarrow> Inr (copy_models h' models))"

text \<open>
  Lines 70 to 116, the body of the pair loop. Its state is the store and the two result
  lists. The right-hand side of line 108 reads \<^verbatim>\<open>modelB.uns[vecfld_key_added]\<close> and
  \<^verbatim>\<open>modelB.obsm[spatial_key]\<close> after \<^verbatim>\<open>BA_align\<close> has returned.
\<close>

definition align_pair ::
  "('n, 'f, 'x, 'o) ext \<Rightarrow> 'o params \<Rightarrow> string option \<Rightarrow> addr list \<Rightarrow> nat
     \<Rightarrow> ('n, 'f, 'x) heap \<times> 'n list \<times> 'n list
     \<Rightarrow> error + (('n, 'f, 'x) heap \<times> 'n list \<times> 'n list)" where
  "align_pair E p label_key align_models i st =
     (case st of (h, pis, sigma2s) \<Rightarrow>
        (let a = align_models ! i; b = align_models ! (i + 1);
             modelA = h ! a; modelB = h ! b
         in case pair_label_sim label_key i modelA modelB of
              Inl e \<Rightarrow> Inl e
            | Inr LabelSimMat \<Rightarrow>
                (case BA_align E (p\<lparr>spatial_key := ''optimal_RnA''\<rparr>) LabelSimMat modelA modelB of
                   Inl e \<Rightarrow> Inl e
                 | Inr (modelA', modelB', P, sigma2) \<Rightarrow>
                     (case uns modelB' (vecfld_key_added p) of
                        None \<Rightarrow> Inl KeyError
                      | Some vecfld \<Rightarrow>
                          (case obsm modelB' (spatial_key p) of
                             None \<Rightarrow> Inl KeyError
                           | Some quary_points \<Rightarrow>
                               (case BA_transform E (passthrough p) vecfld quary_points of
                                  Inl e \<Rightarrow> Inl e
                                | Inr (_, _, rigid) \<Rightarrow>
                                    Inr (h[a := modelA',
                                           b := modelB'\<lparr>obsm :=
                                                  (obsm modelB')(''Rigid_align_spatial'' \<mapsto> rigid)\<rparr>],
                                         pis @ [P], sigma2s @ [sigma2])))))))"

text \<open>The state after the first \<open>k\<close> pairs of the loop of line 69.\<close>

definition morpho_align_upto ::
  "('n, 'f, 'x, 'o) ext \<Rightarrow> 'o params \<Rightarrow> string option \<Rightarrow> ('n, 'f, 'x) heap \<Rightarrow> addr list \<Rightarrow> nat
     \<Rightarrow> error + (('n, 'f, 'x) heap \<times> 'n list \<times> 'n list)" where
  "morpho_align_upto E p label_key h align_models k =
     for_loop (align_pair E p label_key align_models) [0..<k] (h, [], [])"

text \<open>
  The whole of \<^verbatim>\<open>morpho_align\<close>: the store when it returns, and the returned
  \<^verbatim>\<open>align_models, pis, sigma2s\<close>.
\<close>

definition morpho_align ::
  "('n, fref, 'x, 'o) ext \<Rightarrow> 'o params \<Rightarrow> string option \<Rightarrow> ('n, fref, 'x) heap \<Rightarrow> addr list
     \<Rightarrow> error + (('n, fref, 'x) heap \<times> addr list \<times> 'n list \<times> 'n list)" where
  "morpho_align E p label_key h models =
     (case morpho_align_init p h models of
        Inl e \<Rightarrow> Inl e
      | Inr (h0, align_models) \<Rightarrow>
          (case for_loop (align_pair E p label_key align_models)
                  (iteration (int (length align_models) - 1)) (h0, [], []) of
             Inl e \<Rightarrow> Inl e
           | Inr (h', pis, sigma2s) \<Rightarrow> Inr (h', align_models, pis, sigma2s)))"

section \<open>\<^verbatim>\<open>morpho_align_ref\<close>\<close>

text \<open>
  Lines 172 to 179: the reference list is the caller's, or is made by \<^verbatim>\<open>downsampling\<close>
  from copies of the samples; the reduced samples are new objects.
\<close>

definition reference_models ::
  "('n, fref, 'x, 'o) ext \<Rightarrow> 'o params \<Rightarrow> int option \<Rightarrow> string \<Rightarrow> ('n, fref, 'x) heap \<Rightarrow> addr list
     \<Rightarrow> addr list option \<Rightarrow> error + (('n, fref, 'x) heap \<times> addr list)" where
  "reference_models E p n_sampling sampling_method h models models_ref =
     (case models_ref of
        Some refs \<Rightarrow> Inr (h, refs)
      | None \<Rightarrow>
          (case copy_models h models of
             (h1, models_sampling) \<Rightarrow>
               (case downsampling E n_sampling sampling_method (spatial_key p)
                       (map (\<lambda>m. h1 ! m) models_sampling) of
                  Inl e \<Rightarrow> Inl e
                | Inr reduced \<Rightarrow> Inr (h1 @ reduced, [length h1 ..< length h1 + length reduced]))))"

text \<open>
  Lines 182 to 186: both lists are copied, then the output slot is seeded on every
  reference copy and on the first full-resolution copy only. The result is the store and
  the lists \<^verbatim>\<open>align_models\<close> and \<^verbatim>\<open>align_models_ref\<close> with which the pair loop starts.
\<close>

definition morpho_align_ref_init ::
  "'o params \<Rightarrow> ('n, fref, 'x) heap \<Rightarrow> addr list \<Rightarrow> addr list
     \<Rightarrow> error + (('n, fref, 'x) heap \<times> addr list \<times> addr list)" where
  "morpho_align_ref_init p h models models_ref =
     (case copy_models h models of
        (h1, align_models) \<Rightarrow>
          (case copy_models h1 models_ref of
             (h2, align_models_ref) \<Rightarrow>
               (case seed_slot (spatial_key p) (key_added p) h2 align_models_ref of
                  Inl e \<Rightarrow> Inl e
                | Inr h3 \<Rightarrow>
                    (case align_models of
                       [] \<Rightarrow> Inl IndexError
                     | first # _ \<Rightarrow>
                         (case obsm (h3 ! first) (spatial_key p) of
                            None \<Rightarrow> Inl KeyError
                          | Some v \<Rightarrow>
                              Inr (h3[first := (h3 ! first)\<lparr>obsm :=
                                                 (obsm (h3 ! first))(key_added p \<mapsto> v)\<rparr>],
                                   align_models, align_models_ref))))))"

text \<open>
  Lines 215 to 234, the back-projection onto the full-resolution pair: \<open>b_ref\<close> is the
  reference sample \<^verbatim>\<open>modelB_ref\<close>, \<open>a\<close> and \<open>b\<close> are \<^verbatim>\<open>modelA\<close> and \<^verbatim>\<open>modelB\<close>, \<open>P\<close> is
  the assignment matrix of the reference pair. It returns the store and the matrix that
  line 236 appends to \<^verbatim>\<open>pis\<close>.
\<close>

definition back_project ::
  "('n, 'f, 'x, 'o) ext \<Rightarrow> 'o params \<Rightarrow> bool \<Rightarrow> ('n, 'f, 'x) heap \<Rightarrow> addr \<Rightarrow> addr \<Rightarrow> addr \<Rightarrow> 'n
     \<Rightarrow> error + (('n, 'f, 'x) heap \<times> 'n)" where
  "back_project E p return_full_assignment h b_ref a b P =
     (case uns (h ! b_ref) (vecfld_key_added p) of
        None \<Rightarrow> Inl KeyError
      | Some shared \<Rightarrow>
          (let h1 = h[b := (h ! b)\<lparr>uns := (uns (h ! b))(vecfld_key_added p \<mapsto> shared)\<rparr>]
           in case uns (h1 ! b_ref) (vecfld_key_added p) of
                None \<Rightarrow> Inl KeyError
              | Some vecfld \<Rightarrow>
                  (if return_full_assignment
                   then (case BA_transform_and_assignment E (passthrough p) (spatial_key p) vecfld
                                (h1 ! b) (h1 ! a) of
                           Inl e \<Rightarrow> Inl e
                         | Inr (P', coords) \<Rightarrow>
                             Inr (h1[b := (h1 ! b)\<lparr>obsm :=
                                            (obsm (h1 ! b))(key_added p \<mapsto> coords)\<rparr>], P'))
                   else (case obsm (h1 ! b) (spatial_key p) of
                           None \<Rightarrow> Inl KeyError
                         | Some quary_points \<Rightarrow>
                             (case BA_transform E (passthrough p) vecfld quary_points of
                                Inl e \<Rightarrow> Inl e
                              | Inr (coords, _, rigid) \<Rightarrow>
                                  Inr (h1[b := (h1 ! b)\<lparr>obsm :=
                                                 ((obsm (h1 ! b))(key_added p \<mapsto> coords))
                                                   (''Rigid_align_spatial'' \<mapsto> rigid)\<rparr>], P))))))"

text \<open>
  Lines 189 to 236, the body of the pair loop. Its state is the store, the list
  \<^verbatim>\<open>align_models_ref\<close> (line 210 assigns to it) and the three result lists
  \<^verbatim>\<open>pis\<close>, \<^verbatim>\<open>pis_ref\<close>, \<^verbatim>\<open>sigma2s\<close>. Indexing the reference list raises when it is
  too short.
\<close>

definition align_pair_ref ::
  "('n, 'f, 'x, 'o) ext \<Rightarrow> 'o params \<Rightarrow> bool \<Rightarrow> addr list \<Rightarrow> nat
     \<Rightarrow> ('n, 'f, 'x) heap \<times> addr list \<times> 'n list \<times> 'n list \<times> 'n list
     \<Rightarrow> error + (('n, 'f, 'x) heap \<times> addr list \<times> 'n list \<times> 'n list \<times> 'n list)" where
  "align_pair_ref E p return_full_assignment align_models i st =
     (case st of (h, align_models_ref, pis, pis_ref, sigma2s) \<Rightarrow>
        (if \<not> i + 1 < length align_models_ref then Inl IndexError
         else
           (let a_ref = align_models_ref ! i; b_ref = align_models_ref ! (i + 1)
            in case BA_align E (p\<lparr>spatial_key := key_added p\<rparr>) None (h ! a_ref) (h ! b_ref) of
                 Inl e \<Rightarrow> Inl e
               | Inr (modelA_ref', modelB_ref', P, sigma2) \<Rightarrow>
                   (let h1 = h[a_ref := modelA_ref', b_ref := modelB_ref'];
                        align_models_ref' = align_models_ref[i + 1 := b_ref]
                    in case back_project E p return_full_assignment h1 b_ref
                              (align_models ! i) (align_models ! (i + 1)) P of
                         Inl e \<Rightarrow> Inl e
                       | Inr (h2, P') \<Rightarrow>
                           Inr (h2, align_models_ref', pis @ [P'], pis_ref @ [P],
                                sigma2s @ [sigma2])))))"

text \<open>The state after the first \<open>k\<close> pairs of the loop of line 188.\<close>

definition morpho_align_ref_upto ::
  "('n, 'f, 'x, 'o) ext \<Rightarrow> 'o params \<Rightarrow> bool \<Rightarrow> ('n, 'f, 'x) heap \<Rightarrow> addr list \<Rightarrow> addr list \<Rightarrow> nat
     \<Rightarrow> error + (('n, 'f, 'x) heap \<times> addr list \<times> 'n list \<times> 'n list \<times> 'n list)" where
  "morpho_align_ref_upto E p return_full_assignment h align_models align_models_ref k =
     for_loop (align_pair_ref E p return_full_assignment align_models) [0..<k]
       (h, align_models_ref, [], [], [])"

text \<open>
  The whole of \<^verbatim>\<open>morpho_align_ref\<close>: the store when it returns, and the returned
  \<^verbatim>\<open>align_models, align_models_ref, pis, pis_ref, sigma2s\<close>.
\<close>

definition morpho_align_ref ::
  "('n, fref, 'x, 'o) ext \<Rightarrow> 'o params \<Rightarrow> int option \<Rightarrow> string \<Rightarrow> bool \<Rightarrow> ('n, fref, 'x) heap
     \<Rightarrow> addr list \<Rightarrow> addr list option
     \<Rightarrow> error + (('n, fref, 'x) heap \<times> addr list \<times> addr list \<times> 'n list \<times> 'n list \<times> 'n list)" where
  "morpho_align_ref E p n_sampling sampling_method return_full_assignment h models models_ref =
     (case reference_models E p n_sampling sampling_method h models models_ref of
        Inl e \<Rightarrow> Inl e
      | Inr (h1, refs) \<Rightarrow>
          (case morpho_align_ref_init p h1 models refs of
             Inl e \<Rightarrow> Inl e
           | Inr (h2, align_models, align_models_ref) \<Rightarrow>
               (case for_loop (align_pair_ref E p return_full_assignment align_models)
                       (iteration (int (length align_models) - 1))
                       (h2, align_models_ref, [], [], []) of
                  Inl e \<Rightarrow> Inl e
                | Inr (h', align_models_ref', pis, pis_ref, sigma2s) \<Rightarrow>
                    Inr (h', align_models, align_models_ref', pis, pis_ref, sigma2s))))"

section \<open>Concrete samples and stand-ins for the primitives\<close>

text \<open>
  Small inputs on which the model is run: arrays are numbers, a sample has its raw
  coordinates under \<^verbatim>\<open>"spatial"\<close>, the given columns in \<^verbatim>\<open>.obs\<close> and no field.
\<close>

definition sample_of :: "nat \<Rightarrow> (string \<times> column) list \<Rightarrow> (nat, fref, unit) anndata" where
  "sample_of xy cols =
     \<lparr>obsm = [''spatial'' \<mapsto> xy], uns = Map.empty, obs = map_of cols, expr = ()\<rparr>"

definition labelled :: "nat \<Rightarrow> string option list \<Rightarrow> (nat, fref, unit) anndata" where
  "labelled xy vals = sample_of xy [(''celltype'', Categorical [''x'', ''y''] vals)]"

text \<open>The default keyword parameters of both aligners.\<close>

definition default_params :: "unit params" where
  "default_params =
     \<lparr>spatial_key = ''spatial'', key_added = ''align_spatial'',
      iter_key_added = Some ''iter_spatial'', vecfld_key_added = Some ''VecFld_morpho'',
      passthrough = ()\<rparr>"

text \<open>
  Stand-ins for the primitives, with results that tell the calls apart: the registration
  reads both samples' coordinates \<open>xa\<close> and \<open>xb\<close> under its \<^verbatim>\<open>spatial_key\<close>, writes
  \<open>xb + 1\<close> under \<^verbatim>\<open>key_added\<close> and a new field with the reference
  \<open>[10 * xa + xb]\<close> under \<^verbatim>\<open>vecfld_key_added\<close> of sample B, and returns
  \<open>100 + 10 * xa + xb\<close> and \<open>200 + 10 * xa + xb\<close>; the transform adds 1000, 2000
  and 3000 to the query points; the joint transform adds 5000 and 6000 to the sum of the
  field's reference; the downsampling returns its input.
\<close>

definition stub_BA_align ::
  "unit params \<Rightarrow> mat option \<Rightarrow> (nat, fref, unit) anndata \<Rightarrow> (nat, fref, unit) anndata
     \<Rightarrow> error + ((nat, fref, unit) anndata \<times> (nat, fref, unit) anndata \<times> nat \<times> nat)" where
  "stub_BA_align p sim A B =
     (case obsm A (spatial_key p) of
        None \<Rightarrow> Inl KeyError
      | Some xa \<Rightarrow>
          (case obsm B (spatial_key p) of
             None \<Rightarrow> Inl KeyError
           | Some xb \<Rightarrow>
               Inr (A,
                    B\<lparr>obsm := (obsm B)(key_added p \<mapsto> xb + 1),
                      uns := (uns B)(vecfld_key_added p \<mapsto> [10 * xa + xb])\<rparr>,
                    100 + 10 * xa + xb, 200 + 10 * xa + xb)))"

definition stub_BA_transform :: "unit \<Rightarrow> fref \<Rightarrow> nat \<Rightarrow> error + (nat \<times> nat \<times> nat)" where
  "stub_BA_transform other vecfld quary_points =
     Inr (quary_points + 1000, quary_points + 2000, quary_points + 3000)"

definition stub_BA_transform_and_assignment ::
  "unit \<Rightarrow> string \<Rightarrow> fref \<Rightarrow> (nat, fref, unit) anndata \<Rightarrow> (nat, fref, unit) anndata
     \<Rightarrow> error + (nat \<times> nat)" where
  "stub_BA_transform_and_assignment other sk vecfld B A =
     Inr (sum_list vecfld + 5000, sum_list vecfld + 6000)"

definition stub_downsampling ::
  "int option \<Rightarrow> string \<Rightarrow> string \<Rightarrow> (nat, fref, unit) anndata list
     \<Rightarrow> error + (nat, fref, unit) anndata list" where
  "stub_downsampling n_sampling sampling_method sk samples = Inr samples"

definition stub_ext :: "(nat, fref, unit, unit) ext" where
  "stub_ext =
     \<lparr>BA_align = stub_BA_align, BA_transform = stub_BA_transform,
      BA_transform_and_assignment = stub_BA_transform_and_assignment,
      downsampling = stub_downsampling\<rparr>"

text \<open>
  A registration that tells the label matrices apart: it is the one above, but returns as
  its assignment matrix the number of ones in the matrix it is given (0 without one).
\<close>

definition stub_BA_align_sim ::
  "unit params \<Rightarrow> mat option \<Rightarrow> (nat, fref, unit) anndata \<Rightarrow> (nat, fref, unit) anndata
     \<Rightarrow> error + ((nat, fref, unit) anndata \<times> (nat, fref, unit) anndata \<times> nat \<times> nat)" where
  "stub_BA_align_sim p sim A B =
     (case stub_BA_align p sim A B of
        Inl e \<Rightarrow> Inl e
      | Inr (A', B', P, sigma2) \<Rightarrow>
          Inr (A', B',
               (case sim of None \<Rightarrow> 0 | Some M \<Rightarrow> nat (sum_list (concat (cells M)))),
               sigma2))"

definition stub_ext_sim :: "(nat, fref, unit, unit) ext" where
  "stub_ext_sim = stub_ext\<lparr>BA_align := stub_BA_align_sim\<rparr>"

text \<open>
  The parameters of a caller who asks for the aligned coordinates under the key of the raw
  coordinates.
\<close>

definition params_same_key :: "unit params" where
  "params_same_key = default_params\<lparr>key_added := ''spatial''\<rparr>"

text \<open>Three unlabelled samples with coordinates 1, 2 and 3.\<close>

definition heap3 :: "(nat, fref, unit) heap" where
  "heap3 = [sample_of 1 [], sample_of 2 [], sample_of 3 []]"

text \<open>Observations of a result of \<^verbatim>\<open>morpho_align\<close>: the sizes, and a slot of an object.\<close>

definition result_sizes ::
  "error + (('n, 'f, 'x) heap \<times> addr list \<times> 'n list \<times> 'n list) \<Rightarrow> (nat \<times> nat \<times> nat) option" where
  "result_sizes r =
     (case r of
        Inl e \<Rightarrow> None
      | Inr (h, align_models, pis, sigma2s) \<Rightarrow>
          Some (length align_models, length pis, length sigma2s))"

definition slot_after ::
  "error + (('n, 'f, 'x) heap \<times> 'r) \<Rightarrow> addr \<Rightarrow> string \<Rightarrow> 'n option" where
  "slot_after r a k = (case r of Inl e \<Rightarrow> None | Inr (h, rest) \<Rightarrow> obsm (h ! a) k)"

text \<open>Observation of a result of \<^verbatim>\<open>morpho_align_ref\<close>: the lengths of the two chains.\<close>

definition chain_lengths ::
  "error + (('n, 'f, 'x) heap \<times> addr list \<times> addr list \<times> 'r) \<Rightarrow> (nat \<times> nat) option" where
  "chain_lengths r =
     (case r of
        Inl e \<Rightarrow> None
      | Inr (h, align_models, align_models_ref, rest) \<Rightarrow>
          Some (length align_models, length align_models_ref))"

section \<open>Observations used in the statements\<close>

text \<open>
  A sample after the four seeding loops of lines 57 to 64: the four slots hold what the
  sample has under \<^verbatim>\<open>spatial_key\<close>.
\<close>

definition seeded :: "'o params \<Rightarrow> ('n, 'f, 'x) anndata \<Rightarrow> ('n, 'f, 'x) anndata" where
  "seeded p s =
     s\<lparr>obsm := (obsm s)(key_added p := obsm s (spatial_key p),
                         ''Rigid_3d_align_spatial'' := obsm s (spatial_key p),
                         ''Coarse_alignment'' := obsm s (spatial_key p),
                         ''optimal_RnA'' := obsm s (spatial_key p))\<rparr>"

text \<open>A sample after the seeding of lines 185 and 186: the output slot only.\<close>

definition seeded_output :: "'o params \<Rightarrow> ('n, 'f, 'x) anndata \<Rightarrow> ('n, 'f, 'x) anndata" where
  "seeded_output p s = s\<lparr>obsm := (obsm s)(key_added p := obsm s (spatial_key p))\<rparr>"

text \<open>The sample has a categorical column under the label key.\<close>

definition has_categorical :: "string \<Rightarrow> ('n, 'f, 'x) anndata \<Rightarrow> bool" where
  "has_categorical lk s =
     (case obs s lk of
        None \<Rightarrow> False
      | Some NonCategorical \<Rightarrow> False
      | Some (Categorical cats vals) \<Rightarrow> True)"

text \<open>
  \<^verbatim>\<open>morpho_align\<close> from the caller's input up to and including the first \<open>k\<close> pairs.
\<close>

definition morpho_align_prefix ::
  "('n, fref, 'x, 'o) ext \<Rightarrow> 'o params \<Rightarrow> string option \<Rightarrow> ('n, fref, 'x) heap \<Rightarrow> addr list \<Rightarrow> nat
     \<Rightarrow> error + (('n, fref, 'x) heap \<times> 'n list \<times> 'n list)" where
  "morpho_align_prefix E p label_key h models k =
     (case morpho_align_init p h models of
        Inl e \<Rightarrow> Inl e
      | Inr (h0, align_models) \<Rightarrow> morpho_align_upto E p label_key h0 align_models k)"

text \<open>A run has not failed, and the object at an address lacks the categorical column.\<close>

definition lacks_after :: "error + (('n, 'f, 'x) heap \<times> 'r) \<Rightarrow> addr \<Rightarrow> string \<Rightarrow> bool" where
  "lacks_after r a lk =
     (case r of Inl e \<Rightarrow> False | Inr (h, rest) \<Rightarrow> \<not> has_categorical lk (h ! a))"

text \<open>Two samples labelled x, y and a third without labels.\<close>

definition heap_lab :: "(nat, fref, unit) heap" where
  "heap_lab =
     [labelled 1 [Some ''x'', Some ''y''], labelled 2 [Some ''x'', Some ''y''], sample_of 3 []]"

text \<open>Three samples with the labels x, y and x, y, y and x, y.\<close>

definition heap_lab3 :: "(nat, fref, unit) heap" where
  "heap_lab3 =
     [labelled 1 [Some ''x'', Some ''y''], labelled 2 [Some ''x'', Some ''y'', Some ''y''],
      labelled 3 [Some ''x'', Some ''y'']]"

text \<open>
  Observations of a state of the pair loop: a column of an object, and the assignment
  matrix appended last.
\<close>

definition obs_after :: "error + (('n, 'f, 'x) heap \<times> 'r) \<Rightarrow> addr \<Rightarrow> string \<Rightarrow> column option" where
  "obs_after r a lk = (case r of Inl e \<Rightarrow> None | Inr (h, rest) \<Rightarrow> obs (h ! a) lk)"

definition last_pi :: "error + (('n, 'f, 'x) heap \<times> 'n list \<times> 'n list) \<Rightarrow> 'n option" where
  "last_pi r = (case r of Inl e \<Rightarrow> None | Inr (h, pis, sigma2s) \<Rightarrow> Some (last pis))"

text \<open>A sample after line 215 has stored the field under \<^verbatim>\<open>vecfld_key_added\<close>.\<close>

definition with_field :: "'o params \<Rightarrow> 'f \<Rightarrow> ('n, 'f, 'x) anndata \<Rightarrow> ('n, 'f, 'x) anndata" where
  "with_field p vecfld s = s\<lparr>uns := (uns s)(vecfld_key_added p \<mapsto> vecfld)\<rparr>"

text \<open>
  \<^verbatim>\<open>morpho_align_ref\<close> from a given reference list up to and including the first
  \<open>k\<close> pairs.
\<close>

definition morpho_align_ref_prefix ::
  "('n, fref, 'x, 'o) ext \<Rightarrow> 'o params \<Rightarrow> bool \<Rightarrow> ('n, fref, 'x) heap \<Rightarrow> addr list \<Rightarrow> addr list \<Rightarrow> nat
     \<Rightarrow> error + (('n, fref, 'x) heap \<times> addr list \<times> 'n list \<times> 'n list \<times> 'n list)" where
  "morpho_align_ref_prefix E p return_full_assignment h models models_ref k =
     (case morpho_align_ref_init p h models models_ref of
        Inl e \<Rightarrow> Inl e
      | Inr (h0, align_models, align_models_ref) \<Rightarrow>
          morpho_align_ref_upto E p return_full_assignment h0 align_models align_models_ref k)"

text \<open>Three full-resolution samples (1, 2, 3) followed by four reference samples (4 to 7).\<close>

definition heap7 :: "(nat, fref, unit) heap" where
  "heap7 = heap3 @ [sample_of 4 [], sample_of 5 [], sample_of 6 [], sample_of 7 []]"

text \<open>Observations of a run: a field of an object, and an entry of a result list.\<close>

definition field_after ::
  "error + (('n, 'f, 'x) heap \<times> 'r) \<Rightarrow> addr \<Rightarrow> string option \<Rightarrow> 'f option" where
  "field_after r a k = (case r of Inl e \<Rightarrow> None | Inr (h, rest) \<Rightarrow> uns (h ! a) k)"

text \<open>The results of pair \<open>k\<close> in what an aligner returns.\<close>

definition pair_results ::
  "error + (('n, 'f, 'x) heap \<times> addr list \<times> 'n list \<times> 'n list) \<Rightarrow> nat \<Rightarrow> ('n \<times> 'n) option" where
  "pair_results r k =
     (case r of Inl e \<Rightarrow> None | Inr (h, align_models, pis, sigma2s) \<Rightarrow> Some (pis ! k, sigma2s ! k))"

definition pair_results_ref ::
  "error + (('n, 'f, 'x) heap \<times> addr list \<times> addr list \<times> 'n list \<times> 'n list \<times> 'n list) \<Rightarrow> nat
     \<Rightarrow> ('n \<times> 'n \<times> 'n) option" where
  "pair_results_ref r k =
     (case r of
        Inl e \<Rightarrow> None
      | Inr (h, align_models, align_models_ref, pis, pis_ref, sigma2s) \<Rightarrow>
          Some (pis ! k, pis_ref ! k, sigma2s ! k))"

section \<open>The label similarity matrix: what the code builds\<close>

lemma fill_cols_entries:
  "fill_cols ca cb i idxs M = Inr M' \<Longrightarrow> length (cells M) = length ca \<Longrightarrow>
   nrows M' = nrows M \<and> ncols M' = ncols M \<and> length (cells M') = length ca \<and>
   (\<forall>k < length ca. length (cells M' ! k) = length (cells M ! k) \<and>
      (\<forall>j < length (cells M ! k). cells M' ! k ! j =
         (if j \<in> set idxs then (if ca ! k \<noteq> cb ! i then 1 else 0) else cells M ! k ! j)))"
proof (induction idxs arbitrary: M)
  case Nil
  then show ?case by simp
next
  case (Cons index rest)
  let ?vec = "map (\<lambda>c. if c \<noteq> cb ! i then 1 else 0) ca"
  let ?M1 = "set_col M index ?vec"
  from Cons.prems(1) have run: "fill_cols ca cb i rest ?M1 = Inr M'"
    by (simp split: if_splits)
  have len1: "length (cells ?M1) = length ca"
    using Cons.prems(2) by (simp add: set_col_def)
  note IH = Cons.IH [OF run len1]
  have shape1: "nrows ?M1 = nrows M" "ncols ?M1 = ncols M"
    by (simp_all add: set_col_def)
  have row1: "cells ?M1 ! k = (cells M ! k)[index := ?vec ! k]" if "k < length ca" for k
    using that Cons.prems(2) by (simp add: set_col_def)
  show ?case
    using IH shape1 row1 by (auto simp: nth_list_update)
qed

lemma fill_cols_index_ok:
  "fill_cols ca cb i idxs M = Inr M' \<Longrightarrow> idxs \<noteq> [] \<Longrightarrow> i < length cb"
  by (cases idxs) (auto split: if_splits)

lemma LabelSimMat_of_codes_entries:
  assumes "LabelSimMat_of_codes i ca cb = Inr M"
  shows "nrows M = length cb" and "ncols M = length ca" and "length (cells M) = length cb"
    and "j < length cb \<Longrightarrow> length (cells M ! j) = length ca"
    and "j < length cb \<Longrightarrow> k < length ca \<Longrightarrow>
           cells M ! j ! k = (if ca ! k \<noteq> cb ! i then 1 else 0)"
    and "cb \<noteq> [] \<Longrightarrow> i < length cb"
proof -
  let ?Z = "zeros (length ca) (length cb)"
  from assms obtain M0 where
    run: "fill_cols ca cb i [0..<length cb] ?Z = Inr M0" and M: "M = transpose_mat M0"
    by (auto simp: LabelSimMat_of_codes_def split: sum.splits)
  have lenZ: "length (cells ?Z) = length ca"
    by (simp add: zeros_def)
  note F = fill_cols_entries [OF run lenZ]
  have nc: "ncols M0 = length cb" and nr: "nrows M0 = length ca"
    and len0: "length (cells M0) = length ca"
    using F by (simp_all add: zeros_def)
  show "nrows M = length cb" "ncols M = length ca" "length (cells M) = length cb"
    using nc nr by (simp_all add: M transpose_mat_def)
  show "length (cells M ! j) = length ca" if "j < length cb"
    using that nc len0 by (simp add: M transpose_mat_def)
  show "cells M ! j ! k = (if ca ! k \<noteq> cb ! i then 1 else 0)"
    if j: "j < length cb" and k: "k < length ca"
  proof -
    have "cells M ! j ! k = cells M0 ! k ! j"
      using j k nc len0 by (simp add: M transpose_mat_def)
    moreover have "cells M0 ! k ! j = (if ca ! k \<noteq> cb ! i then 1 else 0)"
      using F j k by (simp add: zeros_def)
    ultimately show ?thesis by simp
  qed
  show "i < length cb" if "cb \<noteq> []"
    using fill_cols_index_ok [OF run] that by simp
qed

lemma code_loop_length:
  "code_loop es catA catB (ca, cb) = (ca', cb') \<Longrightarrow> length ca = length catA \<Longrightarrow>
   length cb = length catB \<Longrightarrow> length ca' = length catA \<and> length cb' = length catB"
  by (induction es catA catB "(ca, cb)" arbitrary: ca cb rule: code_loop.induct)
     (auto simp: assign_code_def Let_def)

lemma cat_codes_length:
  "cat_codes catsA catA catsB catB = (ca, cb) \<Longrightarrow>
   length ca = length catA \<and> length cb = length catB"
  using code_loop_length [of "List.enumerate 0 (union1d catsA catsB)" catA catB
      "replicate (length catA) 0" "replicate (length catB) 0" ca cb]
  by (simp add: cat_codes_def Let_def)

text \<open>
  The matrix that lines 72 to 88 build for the pair with loop index \<open>i\<close> has one row per
  point of sample B and one column per point of sample A, and all its rows are the same:
  the entry in row \<open>j\<close> and column \<open>k\<close> is 1 exactly when \<open>codeA[k]\<close> differs from
  \<open>codeB[i]\<close> and 0 otherwise, whatever \<open>j\<close> is.
\<close>

lemma pair_label_sim_rows_identical:
  assumes run: "pair_label_sim (Some lk) i modelA modelB = Inr (Some M)"
    and colA: "obs modelA lk = Some (Categorical catsA catA)"
    and colB: "obs modelB lk = Some (Categorical catsB catB)"
    and codes: "cat_codes catsA catA catsB catB = (codeA, codeB)"
  shows "nrows M = length catB \<and> ncols M = length catA
       \<and> length codeB = length catB \<and> length codeA = length catA
       \<and> length (cells M) = nrows M
       \<and> (\<forall>j < nrows M. i < length codeB \<and> length (cells M ! j) = ncols M
            \<and> (\<forall>k < ncols M. (cells M ! j ! k = 1 \<longleftrightarrow> codeA ! k \<noteq> codeB ! i)
                             \<and> (cells M ! j ! k = 0 \<longleftrightarrow> codeA ! k = codeB ! i))
            \<and> cells M ! j = cells M ! 0)"
proof -
  have L: "LabelSimMat_of_codes i codeA codeB = Inr M"
    using run colA colB codes by (simp add: pair_label_sim_def split: sum.splits)
  note E = LabelSimMat_of_codes_entries [OF L]
  note len = cat_codes_length [OF codes]
  have rows: "cells M ! j = cells M ! 0" if "j < length codeB" for j
  proof (rule nth_equalityI)
    from that have z: "0 < length codeB" by (cases codeB) simp_all
    show "length (cells M ! j) = length (cells M ! 0)"
      using E(4) [of j] E(4) [of 0] that z by simp
    fix k assume "k < length (cells M ! j)"
    then have k: "k < length codeA" using E(4) [of j] that by simp
    show "cells M ! j ! k = cells M ! 0 ! k"
      using E(5) [of j k] E(5) [of 0 k] that z k by simp
  qed
  have idx: "i < length codeB" if "j < length codeB" for j
    using E(6) that by (cases codeB) simp_all
  show ?thesis
    using E(1,2,3) len E(4) E(5) rows idx by simp
qed

lemma pair_label_sim_Some:
  assumes "pair_label_sim (Some lk) i modelA modelB = Inr lsm"
  obtains catsA catA catsB catB codeA codeB M where
    "obs modelA lk = Some (Categorical catsA catA)"
    "obs modelB lk = Some (Categorical catsB catB)"
    "cat_codes catsA catA catsB catB = (codeA, codeB)"
    "LabelSimMat_of_codes i codeA codeB = Inr M"
    "lsm = Some M"
  using assms unfolding pair_label_sim_def
  by (auto split: option.splits column.splits sum.splits prod.splits)

text \<open>
  Claim C2 on the code. For the first pair (loop index 0) with labels x, y on both
  samples the codes are 0, 1 and 0, 1, and the matrix is [[0, 1], [0, 1]]: its entry in
  row 1 and column 1 is 1 although \<open>codeA[1] = codeB[1]\<close>, and its entry in row 1 and
  column 0 is 0 although \<open>codeA[0]\<close> differs from \<open>codeB[1]\<close>. Line 85 compares with
  \<^verbatim>\<open>catBCode[i]\<close>, the pair index, where the column index \<^verbatim>\<open>index\<close> is meant.
\<close>

theorem C2_label_matrix_compares_with_pair_index:
  "cat_codes [''x'', ''y''] [Some ''x'', Some ''y''] [''x'', ''y''] [Some ''x'', Some ''y'']
     = ([0, 1], [0, 1])
   \<and> pair_label_sim (Some ''celltype'') 0
        (labelled 1 [Some ''x'', Some ''y'']) (labelled 2 [Some ''x'', Some ''y''])
     = Inr (Some \<lparr>nrows = 2, ncols = 2, cells = [[0, 1], [0, 1]]\<rparr>)
   \<and> pair_label_sim (Some ''celltype'') 2
        (labelled 1 [Some ''x'', Some ''y'']) (labelled 2 [Some ''x'', Some ''y''])
     = Inl IndexError"
  by code_simp

section \<open>Loops and seeding: general facts\<close>

lemma for_loop_append:
  "for_loop body (xs @ ys) s =
     (case for_loop body xs s of Inl e \<Rightarrow> Inl e | Inr s' \<Rightarrow> for_loop body ys s')"
  by (induction xs arbitrary: s) (auto split: sum.splits)

lemma for_loop_upt_Suc:
  "for_loop body [0..<Suc k] s =
     (case for_loop body [0..<k] s of Inl e \<Rightarrow> Inl e | Inr s' \<Rightarrow> body k s')"
  by (simp add: for_loop_append split: sum.splits)

lemma for_loop_split:
  assumes "k \<le> n"
  shows "for_loop body [0..<n] s =
     (case for_loop body [0..<k] s of Inl e \<Rightarrow> Inl e | Inr s' \<Rightarrow> for_loop body [k..<n] s')"
proof -
  have "[0..<n] = [0..<k] @ [k..<n]"
    using assms by (metis le_add_diff_inverse upt_add_eq_append zero_le)
  then show ?thesis by (simp add: for_loop_append)
qed

lemma for_loop_prefix:
  assumes "for_loop body [0..<n] s = Inr sn" and "k \<le> n"
  obtains sk where "for_loop body [0..<k] s = Inr sk" and "for_loop body [k..<n] sk = Inr sn"
  using assms for_loop_split [OF assms(2), of body s] by (auto split: sum.splits)

lemma iteration_pairs: "iteration (int n - 1) = [0..<n - 1]"
  by (simp add: iteration_def nat_diff_distrib')

lemma seed_slot_Inr:
  "seed_slot src dst h ms = Inr h' \<Longrightarrow>
     length h' = length h
   \<and> (\<forall>a < length h. h' ! a =
         (if a \<in> set ms then (h ! a)\<lparr>obsm := (obsm (h ! a))(dst := obsm (h ! a) src)\<rparr>
          else h ! a))
   \<and> (\<forall>a \<in> set ms. a < length h \<longrightarrow> obsm (h ! a) src \<noteq> None)"
proof (induction ms arbitrary: h)
  case Nil
  then show ?case by simp
next
  case (Cons m rest)
  from Cons.prems obtain v where v: "obsm (h ! m) src = Some v"
    by (auto split: option.splits)
  let ?h1 = "h[m := (h ! m)\<lparr>obsm := (obsm (h ! m))(dst \<mapsto> v)\<rparr>]"
  from Cons.prems v have run: "seed_slot src dst ?h1 rest = Inr h'" by simp
  note IH = Cons.IH [OF run]
  have src1: "obsm (?h1 ! a) src = obsm (h ! a) src" if "a < length h" for a
    using that v by (cases "a = m") auto
  have upd1: "(?h1 ! a)\<lparr>obsm := (obsm (?h1 ! a))(dst := obsm (h ! a) src)\<rparr>
      = (h ! a)\<lparr>obsm := (obsm (h ! a))(dst := obsm (h ! a) src)\<rparr>" if "a < length h" for a
    using that v by (cases "a = m") auto
  have at_m: "?h1 ! m = (h ! m)\<lparr>obsm := (obsm (h ! m))(dst := obsm (h ! m) src)\<rparr>"
    if "m < length h" using that v by simp
  show ?case
  proof (intro conjI allI ballI impI)
    show "length h' = length h" using IH by simp
  next
    fix a assume a: "a < length h"
    then have "h' ! a = (if a \<in> set rest
        then (?h1 ! a)\<lparr>obsm := (obsm (?h1 ! a))(dst := obsm (?h1 ! a) src)\<rparr> else ?h1 ! a)"
      using IH by simp
    then show "h' ! a = (if a \<in> set (m # rest)
        then (h ! a)\<lparr>obsm := (obsm (h ! a))(dst := obsm (h ! a) src)\<rparr> else h ! a)"
      using src1 [OF a] upd1 [OF a] at_m a by (cases "a = m") auto
  next
    fix a assume "a \<in> set (m # rest)" and a: "a < length h"
    then consider "a = m" | "a \<in> set rest" by auto
    then show "obsm (h ! a) src \<noteq> None"
    proof cases
      case 1
      with v show ?thesis by simp
    next
      case 2
      with IH a have "obsm (?h1 ! a) src \<noteq> None" by simp
      with src1 [OF a] show ?thesis by simp
    qed
  qed
qed

lemma seed_slot_total:
  "\<forall>a \<in> set ms. a < length h \<and> obsm (h ! a) src \<noteq> None \<Longrightarrow> \<exists>h'. seed_slot src dst h ms = Inr h'"
proof (induction ms arbitrary: h)
  case Nil
  then show ?case by simp
next
  case (Cons m rest)
  then obtain v where v: "obsm (h ! m) src = Some v" by auto
  let ?h1 = "h[m := (h ! m)\<lparr>obsm := (obsm (h ! m))(dst \<mapsto> v)\<rparr>]"
  have "obsm (?h1 ! a) src = obsm (h ! a) src" if "a < length h" for a
    using that v by (cases "a = m") auto
  with Cons.prems have "\<forall>a \<in> set rest. a < length ?h1 \<and> obsm (?h1 ! a) src \<noteq> None" by simp
  from Cons.IH [OF this] v show ?case by simp
qed

section \<open>Seeding and the pair loop of \<^verbatim>\<open>morpho_align\<close>\<close>

lemma seed_models_Inr:
  assumes "seed_models p h ms = Inr hs"
  shows "length hs = length h"
    and "a < length h \<Longrightarrow> a \<in> set ms \<Longrightarrow> hs ! a = seeded p (h ! a)"
    and "a < length h \<Longrightarrow> a \<notin> set ms \<Longrightarrow> hs ! a = h ! a"
    and "a < length h \<Longrightarrow> a \<in> set ms \<Longrightarrow> obsm (h ! a) (spatial_key p) \<noteq> None"
proof -
  from assms obtain h1 h2 h3 where
    s1: "seed_slot (spatial_key p) (key_added p) h ms = Inr h1" and
    s2: "seed_slot (spatial_key p) ''Rigid_3d_align_spatial'' h1 ms = Inr h2" and
    s3: "seed_slot (spatial_key p) ''Coarse_alignment'' h2 ms = Inr h3" and
    s4: "seed_slot (spatial_key p) ''optimal_RnA'' h3 ms = Inr hs"
    by (auto simp: seed_models_def split: sum.splits)
  note r1 = seed_slot_Inr [OF s1] and r2 = seed_slot_Inr [OF s2]
    and r3 = seed_slot_Inr [OF s3] and r4 = seed_slot_Inr [OF s4]
  show "length hs = length h" using r1 r2 r3 r4 by simp
  show "hs ! a = h ! a" if "a < length h" "a \<notin> set ms"
    using that r1 r2 r3 r4 by simp
  show "obsm (h ! a) (spatial_key p) \<noteq> None" if "a < length h" "a \<in> set ms"
    using that r1 by blast
  show "hs ! a = seeded p (h ! a)" if a: "a < length h" "a \<in> set ms"
  proof -
    let ?r = "obsm (h ! a) (spatial_key p)"
    have e1: "h1 ! a = (h ! a)\<lparr>obsm := (obsm (h ! a))(key_added p := ?r)\<rparr>"
      using r1 a by simp
    have e2: "h2 ! a = (h1 ! a)\<lparr>obsm := (obsm (h1 ! a))(''Rigid_3d_align_spatial'' :=
        obsm (h1 ! a) (spatial_key p))\<rparr>"
      using r1 r2 a by simp
    have e3: "h3 ! a = (h2 ! a)\<lparr>obsm := (obsm (h2 ! a))(''Coarse_alignment'' :=
        obsm (h2 ! a) (spatial_key p))\<rparr>"
      using r1 r2 r3 a by simp
    have e4: "hs ! a = (h3 ! a)\<lparr>obsm := (obsm (h3 ! a))(''optimal_RnA'' :=
        obsm (h3 ! a) (spatial_key p))\<rparr>"
      using r1 r2 r3 r4 a by simp
    have k1: "obsm (h1 ! a) (spatial_key p) = ?r" by (simp add: e1)
    have k2: "obsm (h2 ! a) (spatial_key p) = ?r" by (simp add: e2 k1)
    have k3: "obsm (h3 ! a) (spatial_key p) = ?r" by (simp add: e3 k2)
    show ?thesis
      by (simp add: seeded_def e4 k3 e3 k2 e2 k1 e1)
  qed
qed

lemma seed_models_total:
  assumes "\<forall>a \<in> set ms. a < length h \<and> obsm (h ! a) (spatial_key p) \<noteq> None"
  shows "\<exists>hs. seed_models p h ms = Inr hs"
proof -
  have step: "\<exists>h'. seed_slot (spatial_key p) dst g ms = Inr h'
      \<and> (\<forall>a \<in> set ms. a < length h' \<and> obsm (h' ! a) (spatial_key p) \<noteq> None)"
    if g: "\<forall>a \<in> set ms. a < length g \<and> obsm (g ! a) (spatial_key p) \<noteq> None" for g dst
  proof -
    from seed_slot_total [OF g] obtain h' where h': "seed_slot (spatial_key p) dst g ms = Inr h'"
      by blast
    note r = seed_slot_Inr [OF h']
    have "a < length h' \<and> obsm (h' ! a) (spatial_key p) \<noteq> None" if "a \<in> set ms" for a
      using that g r by auto
    with h' show ?thesis by blast
  qed
  from step [OF assms] obtain h1 where
    h1: "seed_slot (spatial_key p) (key_added p) h ms = Inr h1"
    and g1: "\<forall>a \<in> set ms. a < length h1 \<and> obsm (h1 ! a) (spatial_key p) \<noteq> None" by blast
  from step [OF g1] obtain h2 where
    h2: "seed_slot (spatial_key p) ''Rigid_3d_align_spatial'' h1 ms = Inr h2"
    and g2: "\<forall>a \<in> set ms. a < length h2 \<and> obsm (h2 ! a) (spatial_key p) \<noteq> None" by blast
  from step [OF g2] obtain h3 where
    h3: "seed_slot (spatial_key p) ''Coarse_alignment'' h2 ms = Inr h3"
    and g3: "\<forall>a \<in> set ms. a < length h3 \<and> obsm (h3 ! a) (spatial_key p) \<noteq> None" by blast
  from step [OF g3] obtain h4 where
    h4: "seed_slot (spatial_key p) ''optimal_RnA'' h3 ms = Inr h4" by blast
  show ?thesis using h1 h2 h3 h4 by (simp add: seed_models_def)
qed

lemma deep_copy_simps [simp]:
  "obsm (deep_copy a s) = obsm s" "obs (deep_copy a s) = obs s" "expr (deep_copy a s) = expr s"
  "uns (deep_copy a s) k = map_option (\<lambda>vecfld. a # vecfld) (uns s k)"
  by (simp_all add: deep_copy_def)

lemma deep_copy_obsm_update:
  "deep_copy a (s\<lparr>obsm := m\<rparr>) = (deep_copy a s)\<lparr>obsm := m\<rparr>"
  by (simp add: deep_copy_def)

lemma copy_models_nth:
  assumes "copy_models h models = (h', copies)"
  shows "length h' = length h + length models"
    and "copies = [length h ..< length h + length models]"
    and "x < length h \<Longrightarrow> h' ! x = h ! x"
    and "j < length models \<Longrightarrow> h' ! (length h + j) = deep_copy (length h + j) (h ! (models ! j))"
  using assms by (auto simp: copy_models_def nth_append)

lemma morpho_align_init_Inr:
  assumes "morpho_align_init p h models = Inr (h0, align_models)"
  obtains hs where "seed_models p h models = Inr hs"
    and "copy_models hs models = (h0, align_models)"
    and "align_models = [length h ..< length h + length models]"
    and "length hs = length h"
proof -
  from assms obtain hs where hs: "seed_models p h models = Inr hs"
    and c: "copy_models hs models = (h0, align_models)"
    by (auto simp: morpho_align_init_def split: sum.splits)
  note len = seed_models_Inr(1) [OF hs]
  from copy_models_nth(2) [OF c] len
  have "align_models = [length h ..< length h + length models]" by simp
  with hs c len that show thesis by blast
qed

lemma align_pair_Inr:
  assumes "align_pair E p lk ams i (h, pis, sig) = Inr (h', pis', sig')"
  obtains lsm A' B' P s2 fld q t x r where
    "pair_label_sim lk i (h ! (ams ! i)) (h ! (ams ! (i + 1))) = Inr lsm"
    "BA_align E (p\<lparr>spatial_key := ''optimal_RnA''\<rparr>) lsm (h ! (ams ! i)) (h ! (ams ! (i + 1)))
       = Inr (A', B', P, s2)"
    "uns B' (vecfld_key_added p) = Some fld"
    "obsm B' (spatial_key p) = Some q"
    "BA_transform E (passthrough p) fld q = Inr (t, x, r)"
    "h' = h[ams ! i := A',
            ams ! (i + 1) := B'\<lparr>obsm := (obsm B')(''Rigid_align_spatial'' \<mapsto> r)\<rparr>]"
    "pis' = pis @ [P]" "sig' = sig @ [s2]"
  using assms unfolding align_pair_def Let_def
  by (auto split: sum.splits option.splits prod.splits)

lemma align_loop_lists:
  "for_loop (align_pair E p lk ams) xs (h, pis, sig) = Inr (h', pis', sig') \<Longrightarrow>
   length h' = length h
   \<and> (\<exists>ps ss. pis' = pis @ ps \<and> sig' = sig @ ss \<and> length ps = length xs \<and> length ss = length xs)"
proof (induction xs arbitrary: h pis sig)
  case Nil
  then show ?case by simp
next
  case (Cons i rest)
  from Cons.prems obtain h1 pis1 sig1 where
    step: "align_pair E p lk ams i (h, pis, sig) = Inr (h1, pis1, sig1)"
    and run: "for_loop (align_pair E p lk ams) rest (h1, pis1, sig1) = Inr (h', pis', sig')"
    by (auto split: sum.splits)
  from step obtain P s2 where l1: "length h1 = length h" "pis1 = pis @ [P]" "sig1 = sig @ [s2]"
    by (elim align_pair_Inr) simp
  from Cons.IH [OF run] l1 show ?case by auto
qed

lemma seeded_slots:
  "slot \<in> {key_added p, ''Rigid_3d_align_spatial'', ''Coarse_alignment'', ''optimal_RnA''} \<Longrightarrow>
     obsm (seeded p s) slot = obsm s (spatial_key p)"
  "obsm (seeded p s) (spatial_key p) = obsm s (spatial_key p)"
  "obs (seeded p s) = obs s" "uns (seeded p s) = uns s" "expr (seeded p s) = expr s"
  by (auto simp: seeded_def)

lemma init_copy_nth:
  assumes init: "morpho_align_init p h models = Inr (h0, align_models)"
    and valid: "\<forall>m \<in> set models. m < length h"
    and j: "j < length models"
  shows "align_models ! j = length h + j"
    and "h0 ! (align_models ! j) = deep_copy (length h + j) (seeded p (h ! (models ! j)))"
    and "h0 ! (models ! j) = seeded p (h ! (models ! j))"
    and "obsm (h ! (models ! j)) (spatial_key p) \<noteq> None"
    and "length h0 = length h + length models"
proof -
  from init obtain hs where hs: "seed_models p h models = Inr hs"
    and c: "copy_models hs models = (h0, align_models)"
    and ams: "align_models = [length h ..< length h + length models]"
    and len: "length hs = length h"
    by (rule morpho_align_init_Inr)
  note C = copy_models_nth [OF c]
  from valid j have m: "models ! j < length h" "models ! j \<in> set models" by simp_all
  show a: "align_models ! j = length h + j" using ams j by simp
  have s: "hs ! (models ! j) = seeded p (h ! (models ! j))"
    using seed_models_Inr(2) [OF hs m] .
  show "h0 ! (align_models ! j) = deep_copy (length h + j) (seeded p (h ! (models ! j)))"
    using a C(4) [OF j] len s by simp
  show "h0 ! (models ! j) = seeded p (h ! (models ! j))"
    using C(3) [of "models ! j"] len m s by simp
  show "obsm (h ! (models ! j)) (spatial_key p) \<noteq> None"
    using seed_models_Inr(4) [OF hs m] .
  show "length h0 = length h + length models" using C(1) len by simp
qed

text \<open>
  Claim C5. When \<^verbatim>\<open>morpho_align\<close> has seeded and copied its input, and before the pair
  loop starts, every sample has raw coordinates under \<^verbatim>\<open>spatial_key\<close>, and each of the
  four seeded slots (the output slot \<^verbatim>\<open>key_added\<close>, \<^verbatim>\<open>"Rigid_3d_align_spatial"\<close>,
  \<^verbatim>\<open>"Coarse_alignment"\<close>, \<^verbatim>\<open>"optimal_RnA"\<close>) holds exactly those raw coordinates, on the
  working copy and on the caller's sample alike; the raw slot itself is unchanged.
\<close>

theorem C5_seeded_slots_equal_raw_input:
  assumes init: "morpho_align_init p h models = Inr (h0, align_models)"
    and valid: "\<forall>m \<in> set models. m < length h"
    and j: "j < length models"
    and slot: "slot \<in> {key_added p, ''Rigid_3d_align_spatial'', ''Coarse_alignment'', ''optimal_RnA''}"
  shows "obsm (h ! (models ! j)) (spatial_key p) \<noteq> None
       \<and> obsm (h0 ! (align_models ! j)) slot = obsm (h ! (models ! j)) (spatial_key p)
       \<and> obsm (h0 ! (models ! j)) slot = obsm (h ! (models ! j)) (spatial_key p)
       \<and> obsm (h0 ! (align_models ! j)) (spatial_key p) = obsm (h ! (models ! j)) (spatial_key p)"
  using init_copy_nth [OF init valid j] slot
  by (simp add: seeded_slots)

lemma morpho_align_Inr:
  assumes "morpho_align E p lk h models = Inr (h', ams, pis, sig)"
  obtains h0 where "morpho_align_init p h models = Inr (h0, ams)"
    and "for_loop (align_pair E p lk ams) [0..<length ams - 1] (h0, [], []) = Inr (h', pis, sig)"
  using assms unfolding morpho_align_def
  by (auto simp: iteration_pairs split: sum.splits prod.splits)

lemma seed_models_single:
  assumes m: "m < length h" and raw: "obsm (h ! m) (spatial_key p) \<noteq> None"
  shows "seed_models p h [m] = Inr (h[m := seeded p (h ! m)])"
proof -
  from seed_models_total [of "[m]" h p] m raw obtain hs where hs: "seed_models p h [m] = Inr hs"
    by auto
  note r = seed_models_Inr [OF hs]
  have "hs = h[m := seeded p (h ! m)]"
  proof (rule nth_equalityI)
    show "length hs = length (h[m := seeded p (h ! m)])" using r(1) by simp
    fix a assume "a < length hs"
    then have a: "a < length h" using r(1) by simp
    show "hs ! a = h[m := seeded p (h ! m)] ! a"
      using r(2) [of a] r(3) [of a] a by (cases "a = m") simp_all
  qed
  with hs show ?thesis by simp
qed

text \<open>
  Claim C3. For a list of \<open>N \<ge> 1\<close> samples, a call of \<^verbatim>\<open>morpho_align\<close> that returns,
  returns \<open>N\<close> aligned samples (new objects, one per input sample, in order), \<open>N - 1\<close>
  assignment matrices and \<open>N - 1\<close> variance estimates. For a single sample that has raw
  coordinates the call returns whatever the primitives are: the pair loop does not run,
  both result lists are empty, and the returned sample is a new object, the copy of the
  seeded input sample.
\<close>

theorem C3_result_counts:
  "(morpho_align E p lk h models = Inr (h', align_models, pis, sigma2s) \<longrightarrow> models \<noteq> [] \<longrightarrow>
      length align_models = length models
    \<and> length pis = length models - 1 \<and> length sigma2s = length models - 1
    \<and> align_models = [length h ..< length h + length models])
   \<and> (m < length h \<longrightarrow> obsm (h ! m) (spatial_key p) \<noteq> None \<longrightarrow>
        morpho_align E p lk h [m]
          = Inr (h[m := seeded p (h ! m)] @ [deep_copy (length h) (seeded p (h ! m))],
                 [length h], [], []))"
proof -
  have counts: "length align_models = length models
    \<and> length pis = length models - 1 \<and> length sigma2s = length models - 1
    \<and> align_models = [length h ..< length h + length models]"
    if run: "morpho_align E p lk h models = Inr (h', align_models, pis, sigma2s)"
  proof -
    from run obtain h0 where init: "morpho_align_init p h models = Inr (h0, align_models)"
      and loop: "for_loop (align_pair E p lk align_models) [0..<length align_models - 1]
                   (h0, [], []) = Inr (h', pis, sigma2s)"
      by (rule morpho_align_Inr)
    from init obtain hs where ams: "align_models = [length h ..< length h + length models]"
      by (rule morpho_align_init_Inr)
    then have len: "length align_models = length models" by simp
    from align_loop_lists [OF loop] len ams show ?thesis by auto
  qed
  have single: "morpho_align E p lk h [m]
          = Inr (h[m := seeded p (h ! m)] @ [deep_copy (length h) (seeded p (h ! m))],
                 [length h], [], [])"
    if m: "m < length h" and raw: "obsm (h ! m) (spatial_key p) \<noteq> None"
    using m by (simp add: morpho_align_def morpho_align_init_def seed_models_single [OF m raw]
        copy_models_def iteration_def)
  from counts single show ?thesis by blast
qed

lemma pair_label_sim_lacking:
  assumes "\<not> has_categorical lk A \<or> \<not> has_categorical lk B"
  shows "pair_label_sim (Some lk) i A B = Inl KeyError
       \<or> pair_label_sim (Some lk) i A B = Inl AttributeError"
  using assms unfolding pair_label_sim_def has_categorical_def
  by (auto split: option.splits column.splits)

lemma align_pair_label_error:
  assumes "pair_label_sim lk i (h ! (ams ! i)) (h ! (ams ! (i + 1))) = Inl e"
  shows "align_pair E p lk ams i (h, pis, sig) = Inl e"
  using assms by (simp add: align_pair_def Let_def)

lemma for_loop_fails_at:
  assumes reach: "for_loop body [0..<i] s = Inr si" and fail: "body i si = Inl e" and i: "i < n"
  shows "for_loop body [0..<n] s = Inl e"
proof -
  have "[i..<n] = i # [Suc i..<n]" using i by (simp add: upt_conv_Cons)
  then have "for_loop body [i..<n] si = Inl e" using fail by simp
  with reach show ?thesis
    using for_loop_split [of i n body s] i by simp
qed

text \<open>
  Claim C8. In \<^verbatim>\<open>morpho_align\<close> with a label key, when the run reaches a pair one of
  whose two samples has no categorical column under that key, the pair fails with
  \<^verbatim>\<open>KeyError\<close> or \<^verbatim>\<open>AttributeError\<close> whatever the primitives are (the registration
  is not consulted), and the whole call fails with that error.
\<close>

theorem C8_missing_label_fails_at_pair:
  assumes init: "morpho_align_init p h models = Inr (h0, align_models)"
    and i: "i + 1 < length models"
    and reach: "morpho_align_upto E p (Some lk) h0 align_models i = Inr (hi, pis, sigma2s)"
    and lacks: "\<not> has_categorical lk (hi ! (align_models ! i))
              \<or> \<not> has_categorical lk (hi ! (align_models ! (i + 1)))"
  shows "\<exists>e. (e = KeyError \<or> e = AttributeError)
           \<and> (\<forall>E'. align_pair E' p (Some lk) align_models i (hi, pis, sigma2s) = Inl e)
           \<and> morpho_align E p (Some lk) h models = Inl e"
proof -
  from pair_label_sim_lacking [OF lacks, of i] obtain e where
    e: "e = KeyError \<or> e = AttributeError" and
    lab: "pair_label_sim (Some lk) i (hi ! (align_models ! i)) (hi ! (align_models ! (i + 1))) = Inl e"
    by blast
  have step: "align_pair E' p (Some lk) align_models i (hi, pis, sigma2s) = Inl e" for E'
    using lab by (rule align_pair_label_error)
  from init obtain hs where ams: "align_models = [length h ..< length h + length models]"
    by (rule morpho_align_init_Inr)
  then have len: "length align_models = length models" by simp
  have "for_loop (align_pair E p (Some lk) align_models) [0..<length align_models - 1] (h0, [], [])
      = Inl e"
    using reach step [of E] i len
    by (intro for_loop_fails_at [where i = i and si = "(hi, pis, sigma2s)"])
       (simp_all add: morpho_align_upto_def)
  then have "morpho_align E p (Some lk) h models = Inl e"
    using init by (simp add: morpho_align_def iteration_pairs)
  with e step show ?thesis by blast
qed

lemma morpho_align_upto_Suc:
  "morpho_align_upto E p lk h0 ams (Suc k) =
     (case morpho_align_upto E p lk h0 ams k of
        Inl e \<Rightarrow> Inl e
      | Inr st \<Rightarrow> align_pair E p lk ams k st)"
  by (simp only: morpho_align_upto_def for_loop_upt_Suc)

text \<open>
  Claim C10. In \<^verbatim>\<open>morpho_align\<close> with a label key, whatever the primitives are, the
  pair with loop index \<open>i\<close> that completes reads the categorical columns of its two
  samples, and the call of \<^verbatim>\<open>BA_align\<close> whose results it appends to \<^verbatim>\<open>pis\<close> and
  \<^verbatim>\<open>sigma2s\<close> is the call on these two samples with the matrix \<open>M\<close> that lines 83
  to 86 build from the codes of the two columns and the loop index \<open>i\<close>. This matrix has
  one row per point of sample B and one column per point of sample A, and all its rows
  are the same: the entry in row \<open>j\<close> and column \<open>k\<close> is 1 exactly when \<open>codeA[k]\<close>
  differs from \<open>codeB[i]\<close> and 0 otherwise, whatever \<open>j\<close> is. Sample B's labels enter
  only through the one code \<open>codeB[i]\<close>, which exists whenever the matrix has a row.
\<close>

theorem C10_label_matrix_passed_to_register:
  assumes reach: "morpho_align_upto E p (Some lk) h0 align_models i = Inr (hi, pis, sigma2s)"
    and succ: "morpho_align_upto E p (Some lk) h0 align_models (Suc i) = Inr (hi', pis', sigma2s')"
  shows "\<exists>catsA catA catsB catB codeA codeB M modelA' modelB' P sigma2.
           obs (hi ! (align_models ! i)) lk = Some (Categorical catsA catA)
         \<and> obs (hi ! (align_models ! (i + 1))) lk = Some (Categorical catsB catB)
         \<and> cat_codes catsA catA catsB catB = (codeA, codeB)
         \<and> LabelSimMat_of_codes i codeA codeB = Inr M
         \<and> BA_align E (p\<lparr>spatial_key := ''optimal_RnA''\<rparr>) (Some M)
               (hi ! (align_models ! i)) (hi ! (align_models ! (i + 1)))
             = Inr (modelA', modelB', P, sigma2)
         \<and> pis' = pis @ [P] \<and> sigma2s' = sigma2s @ [sigma2]
         \<and> nrows M = length catB \<and> ncols M = length catA
         \<and> length codeB = length catB \<and> length codeA = length catA
         \<and> length (cells M) = nrows M
         \<and> (\<forall>j < nrows M. i < length codeB \<and> length (cells M ! j) = ncols M
              \<and> (\<forall>k < ncols M. (cells M ! j ! k = 1 \<longleftrightarrow> codeA ! k \<noteq> codeB ! i)
                               \<and> (cells M ! j ! k = 0 \<longleftrightarrow> codeA ! k = codeB ! i))
              \<and> cells M ! j = cells M ! 0)"
proof -
  from succ reach have step:
    "align_pair E p (Some lk) align_models i (hi, pis, sigma2s) = Inr (hi', pis', sigma2s')"
    by (simp add: morpho_align_upto_Suc)
  from step obtain lsm A' B' P s2 where
    sim: "pair_label_sim (Some lk) i (hi ! (align_models ! i)) (hi ! (align_models ! (i + 1)))
            = Inr lsm"
    and reg: "BA_align E (p\<lparr>spatial_key := ''optimal_RnA''\<rparr>) lsm
            (hi ! (align_models ! i)) (hi ! (align_models ! (i + 1))) = Inr (A', B', P, s2)"
    and lists: "pis' = pis @ [P]" "sigma2s' = sigma2s @ [s2]"
    by (rule align_pair_Inr)
  from sim obtain catsA catA catsB catB codeA codeB M where
    colA: "obs (hi ! (align_models ! i)) lk = Some (Categorical catsA catA)"
    and colB: "obs (hi ! (align_models ! (i + 1))) lk = Some (Categorical catsB catB)"
    and codes: "cat_codes catsA catA catsB catB = (codeA, codeB)"
    and L: "LabelSimMat_of_codes i codeA codeB = Inr M"
    and lsm: "lsm = Some M"
    by (rule pair_label_sim_Some)
  note shape = pair_label_sim_rows_identical [OF sim [unfolded lsm] colA colB codes]
  from colA colB codes L reg [unfolded lsm] lists shape show ?thesis by blast
qed

lemma align_loop_untouched:
  assumes "for_loop (align_pair E p lk ams) xs (h, pis, sig) = Inr (h', pis', sig')"
    and "\<forall>i \<in> set xs. x \<noteq> ams ! i \<and> x \<noteq> ams ! (i + 1)"
  shows "h' ! x = h ! x"
  using assms
proof (induction xs arbitrary: h pis sig)
  case Nil
  then show ?case by simp
next
  case (Cons i rest)
  from Cons.prems(1) obtain h1 pis1 sig1 where
    step: "align_pair E p lk ams i (h, pis, sig) = Inr (h1, pis1, sig1)"
    and run: "for_loop (align_pair E p lk ams) rest (h1, pis1, sig1) = Inr (h', pis', sig')"
    by (auto split: sum.splits)
  from Cons.prems(2) have "x \<noteq> ams ! i" "x \<noteq> ams ! (i + 1)" by simp_all
  with step have "h1 ! x = h ! x"
    by (elim align_pair_Inr) simp
  moreover have "h' ! x = h1 ! x"
    using Cons.IH [OF run] Cons.prems(2) by simp
  ultimately show ?case by simp
qed

text \<open>
  Claim C4, amended. In \<^verbatim>\<open>morpho_align\<close>, for every pair \<open>(i, i + 1)\<close> that completes,
  \<^verbatim>\<open>BA_transform\<close> is called with the field that \<^verbatim>\<open>BA_align\<close> left under
  \<^verbatim>\<open>vecfld_key_added\<close> of sample B and with what sample B has under \<^verbatim>\<open>spatial_key\<close>
  when \<^verbatim>\<open>BA_align\<close> has returned. When the pair starts, that slot holds sample B's
  original raw coordinates, those of the caller's sample \<open>i + 1\<close> before the call; so
  \<^verbatim>\<open>BA_transform\<close> is called on sample B's original raw coordinates whenever
  \<^verbatim>\<open>BA_align\<close> has left the \<^verbatim>\<open>spatial_key\<close> slot of sample B as it was. The third
  (rigid-only) output of \<^verbatim>\<open>BA_transform\<close> is stored under \<^verbatim>\<open>"Rigid_align_spatial"\<close>
  of sample B. Nothing else of sample B is written: the slot
  \<^verbatim>\<open>"Rigid_3d_align_spatial"\<close> seeded by step 1 keeps what \<^verbatim>\<open>BA_align\<close> left there.
\<close>

theorem C4_rigid_output_slot:
  assumes init: "morpho_align_init p h models = Inr (h0, align_models)"
    and valid: "\<forall>m \<in> set models. m < length h"
    and i: "i + 1 < length models"
    and reach: "morpho_align_upto E p lk h0 align_models i = Inr (hi, pis, sigma2s)"
    and succ: "morpho_align_upto E p lk h0 align_models (Suc i) = Inr (hi', pis', sigma2s')"
  shows "\<exists>LabelSimMat modelA' modelB' P sigma2 vecfld quary_points t x rigid.
           BA_align E (p\<lparr>spatial_key := ''optimal_RnA''\<rparr>) LabelSimMat
               (hi ! (align_models ! i)) (hi ! (align_models ! (i + 1)))
             = Inr (modelA', modelB', P, sigma2)
         \<and> uns modelB' (vecfld_key_added p) = Some vecfld
         \<and> obsm modelB' (spatial_key p) = Some quary_points
         \<and> BA_transform E (passthrough p) vecfld quary_points = Inr (t, x, rigid)
         \<and> obsm (hi ! (align_models ! (i + 1))) (spatial_key p)
             = obsm (h ! (models ! (i + 1))) (spatial_key p)
         \<and> (obsm modelB' (spatial_key p) = obsm (hi ! (align_models ! (i + 1))) (spatial_key p)
              \<longrightarrow> obsm (h ! (models ! (i + 1))) (spatial_key p) = Some quary_points)
         \<and> hi' ! (align_models ! (i + 1))
             = modelB'\<lparr>obsm := (obsm modelB')(''Rigid_align_spatial'' \<mapsto> rigid)\<rparr>
         \<and> obsm (hi' ! (align_models ! (i + 1))) ''Rigid_align_spatial'' = Some rigid
         \<and> obsm (hi' ! (align_models ! (i + 1))) ''Rigid_3d_align_spatial''
             = obsm modelB' ''Rigid_3d_align_spatial''"
proof -
  from init obtain hs where ams: "align_models = [length h ..< length h + length models]"
    and c: "copy_models hs models = (h0, align_models)" and len: "length hs = length h"
    by (rule morpho_align_init_Inr)
  have leni: "length hi = length h + length models"
    using align_loop_lists [OF reach [unfolded morpho_align_upto_def]] copy_models_nth(1) [OF c] len
    by simp
  have a: "align_models ! i = length h + i" and b: "align_models ! (i + 1) = length h + i + 1"
    using ams i by simp_all
  have before: "hi ! (align_models ! (i + 1)) = h0 ! (align_models ! (i + 1))"
  proof (rule align_loop_untouched [OF reach [unfolded morpho_align_upto_def]])
    show "\<forall>j \<in> set [0..<i]. align_models ! (i + 1) \<noteq> align_models ! j
        \<and> align_models ! (i + 1) \<noteq> align_models ! (j + 1)"
    proof
      fix j assume "j \<in> set [0..<i]"
      then have j: "j < i" by simp
      with i have "align_models ! j = length h + j" "align_models ! (j + 1) = length h + j + 1"
        using ams by simp_all
      with b j show "align_models ! (i + 1) \<noteq> align_models ! j
          \<and> align_models ! (i + 1) \<noteq> align_models ! (j + 1)" by simp
    qed
  qed
  have raw: "obsm (hi ! (align_models ! (i + 1))) (spatial_key p)
      = obsm (h ! (models ! (i + 1))) (spatial_key p)"
    unfolding before init_copy_nth(2) [OF init valid i] by (simp add: seeded_slots)
  from succ reach have step:
    "align_pair E p lk align_models i (hi, pis, sigma2s) = Inr (hi', pis', sigma2s')"
    by (simp add: morpho_align_upto_Suc)
  from step obtain lsm A' B' P s2 fld q t x r where
    reg: "BA_align E (p\<lparr>spatial_key := ''optimal_RnA''\<rparr>) lsm
            (hi ! (align_models ! i)) (hi ! (align_models ! (i + 1))) = Inr (A', B', P, s2)"
    and fld: "uns B' (vecfld_key_added p) = Some fld"
    and q: "obsm B' (spatial_key p) = Some q"
    and tr: "BA_transform E (passthrough p) fld q = Inr (t, x, r)"
    and hi': "hi' = hi[align_models ! i := A',
        align_models ! (i + 1) := B'\<lparr>obsm := (obsm B')(''Rigid_align_spatial'' \<mapsto> r)\<rparr>]"
    by (rule align_pair_Inr)
  have at_b: "hi' ! (align_models ! (i + 1))
      = B'\<lparr>obsm := (obsm B')(''Rigid_align_spatial'' \<mapsto> r)\<rparr>"
    using hi' a b leni i by simp
  have kept: "obsm B' (spatial_key p) = obsm (hi ! (align_models ! (i + 1))) (spatial_key p)
      \<longrightarrow> obsm (h ! (models ! (i + 1))) (spatial_key p) = Some q"
    using raw q by simp
  have "obsm (hi' ! (align_models ! (i + 1))) ''Rigid_align_spatial'' = Some r"
    and "obsm (hi' ! (align_models ! (i + 1))) ''Rigid_3d_align_spatial''
           = obsm B' ''Rigid_3d_align_spatial''"
    using at_b by simp_all
  with reg fld q tr raw kept at_b show ?thesis by blast
qed

lemma nth_append_length_prefix:
  "length xs = k \<Longrightarrow> ((xs @ [x]) @ ys) ! k = x"
  by (simp add: nth_append)

lemma morpho_align_results_in_pair_order:
  assumes run: "morpho_align E p lk h models = Inr (h', align_models, pis, sigma2s)"
    and k: "k + 1 < length models"
  shows "\<exists>h0 hk pk sk LabelSimMat modelA' modelB'.
           morpho_align_init p h models = Inr (h0, align_models)
         \<and> morpho_align_upto E p lk h0 align_models k = Inr (hk, pk, sk)
         \<and> BA_align E (p\<lparr>spatial_key := ''optimal_RnA''\<rparr>) LabelSimMat
               (hk ! (align_models ! k)) (hk ! (align_models ! (k + 1)))
             = Inr (modelA', modelB', pis ! k, sigma2s ! k)
         \<and> length pis = length models - 1 \<and> length sigma2s = length models - 1"
proof -
  from run obtain h0 where init: "morpho_align_init p h models = Inr (h0, align_models)"
    and loop: "for_loop (align_pair E p lk align_models) [0..<length align_models - 1]
                 (h0, [], []) = Inr (h', pis, sigma2s)"
    by (rule morpho_align_Inr)
  from init obtain hs where ams: "align_models = [length h ..< length h + length models]"
    by (rule morpho_align_init_Inr)
  then have len: "length align_models = length models" by simp
  let ?body = "align_pair E p lk align_models"
  from k len have k1: "Suc k \<le> length align_models - 1" by simp
  from for_loop_prefix [OF loop k1] obtain s1 where
    pre1: "for_loop ?body [0..<Suc k] (h0, [], []) = Inr s1"
    and post1: "for_loop ?body [Suc k..<length align_models - 1] s1 = Inr (h', pis, sigma2s)"
    by blast
  obtain h1 p1 g1 where s1: "s1 = (h1, p1, g1)" by (cases s1) auto
  from pre1 [unfolded for_loop_upt_Suc] obtain sk where
    prek: "for_loop ?body [0..<k] (h0, [], []) = Inr sk" and stepk: "?body k sk = Inr s1"
    by (cases "for_loop ?body [0..<k] (h0, [], [])") simp_all
  obtain hk pk gk where sk: "sk = (hk, pk, gk)" by (cases sk) auto
  from align_loop_lists [OF prek [unfolded sk]] have lk: "length pk = k" "length gk = k"
    by auto
  from stepk [unfolded sk s1] obtain lsm A' B' P s2 where
    reg: "BA_align E (p\<lparr>spatial_key := ''optimal_RnA''\<rparr>) lsm
            (hk ! (align_models ! k)) (hk ! (align_models ! (k + 1))) = Inr (A', B', P, s2)"
    and p1: "p1 = pk @ [P]" and g1: "g1 = gk @ [s2]"
    by (rule align_pair_Inr)
  from align_loop_lists [OF post1 [unfolded s1]] obtain ps ss where
    fin: "pis = p1 @ ps" "sigma2s = g1 @ ss"
    by auto
  have "pis ! k = P" "sigma2s ! k = s2"
    using fin p1 g1 lk by (simp_all add: nth_append)
  moreover from align_loop_lists [OF loop] len
  have "length pis = length models - 1" "length sigma2s = length models - 1" by auto
  ultimately show ?thesis
    using init prek sk reg unfolding morpho_align_upto_def by blast
qed

lemma align_loop_frame:
  assumes "for_loop (align_pair E p lk ams) xs (h, pis, sig) = Inr (h', pis', sig')"
    and "\<forall>i \<in> set xs. i + 1 < length ams" and "\<forall>a \<in> set ams. L \<le> a" and "x < L"
  shows "h' ! x = h ! x"
  using assms
proof (induction xs arbitrary: h pis sig)
  case Nil
  then show ?case by simp
next
  case (Cons i rest)
  from Cons.prems(1) obtain h1 pis1 sig1 where
    step: "align_pair E p lk ams i (h, pis, sig) = Inr (h1, pis1, sig1)"
    and run: "for_loop (align_pair E p lk ams) rest (h1, pis1, sig1) = Inr (h', pis', sig')"
    by (auto split: sum.splits)
  from Cons.prems(2,3) have "L \<le> ams ! i" "L \<le> ams ! (i + 1)" by simp_all
  with step Cons.prems(4) have "h1 ! x = h ! x"
    by (elim align_pair_Inr) simp
  moreover have "h' ! x = h1 ! x"
    using Cons.IH [OF run] Cons.prems(2,3,4) by simp
  ultimately show ?case by simp
qed

lemma morpho_align_callers_samples:
  assumes run: "morpho_align E p lk h models = Inr (h', align_models, pis, sigma2s)"
    and valid: "\<forall>m \<in> set models. m < length h"
  shows "m \<in> set models \<Longrightarrow> h' ! m = seeded p (h ! m)"
    and "x < length h \<Longrightarrow> x \<notin> set models \<Longrightarrow> h' ! x = h ! x"
proof -
  from run obtain h0 where init: "morpho_align_init p h models = Inr (h0, align_models)"
    and loop: "for_loop (align_pair E p lk align_models) [0..<length align_models - 1]
                 (h0, [], []) = Inr (h', pis, sigma2s)"
    by (rule morpho_align_Inr)
  from init obtain hs where hs: "seed_models p h models = Inr hs"
    and ams: "align_models = [length h ..< length h + length models]"
    and c: "copy_models hs models = (h0, align_models)" and len: "length hs = length h"
    by (rule morpho_align_init_Inr)
  have frame: "h' ! x = h0 ! x" if "x < length h" for x
    using loop _ _ that
  proof (rule align_loop_frame)
    show "\<forall>i \<in> set [0..<length align_models - 1]. i + 1 < length align_models" by auto
    show "\<forall>a \<in> set align_models. length h \<le> a" using ams by simp
  qed
  have low: "h0 ! x = hs ! x" if "x < length h" for x
    using that copy_models_nth(3) [OF c, of x] len by simp
  show "h' ! m = seeded p (h ! m)" if "m \<in> set models"
    using that valid frame low seed_models_Inr(2) [OF hs] by simp
  show "h' ! x = h ! x" if "x < length h" "x \<notin> set models"
    using that frame low seed_models_Inr(3) [OF hs] by simp
qed

section \<open>\<^verbatim>\<open>morpho_align\<close> on concrete samples\<close>

lemma morpho_align_prefix_Inr:
  assumes "\<not> isl (morpho_align_prefix E p lk h models k)"
  obtains h0 ams hk pk sk where "morpho_align_init p h models = Inr (h0, ams)"
    and "morpho_align_upto E p lk h0 ams k = Inr (hk, pk, sk)"
    and "morpho_align_prefix E p lk h models k = Inr (hk, pk, sk)"
proof -
  from assms obtain st where st: "morpho_align_prefix E p lk h models k = Inr st"
    by (cases "morpho_align_prefix E p lk h models k") auto
  obtain hk pk sk where [simp]: "st = (hk, pk, sk)" by (cases st) auto
  from st obtain h0 ams where "morpho_align_init p h models = Inr (h0, ams)"
    and "morpho_align_upto E p lk h0 ams k = Inr (hk, pk, sk)"
    by (auto simp: morpho_align_prefix_def split: sum.splits)
  with st that show thesis by simp
qed

text \<open>
  The theorem of claim C5 on three samples with raw coordinates 1, 2, 3: the copy of the
  second sample (object 4) starts the pair loop with \<^verbatim>\<open>"optimal_RnA"\<close> equal to 2.
\<close>

theorem C5_seeded_slots_equal_raw_input_witness:
  "slot_after (morpho_align_init default_params heap3 [0, 1, 2]) 4 ''optimal_RnA'' = Some 2
   \<and> obsm (heap3 ! 1) ''spatial'' = Some 2"
proof -
  have "\<not> isl (morpho_align_init default_params heap3 [0, 1, 2])" by code_simp
  then obtain h0 ams where init: "morpho_align_init default_params heap3 [0, 1, 2] = Inr (h0, ams)"
    by (cases "morpho_align_init default_params heap3 [0, 1, 2]") auto
  have valid: "\<forall>m \<in> set [0, 1, 2]. m < length heap3" by (simp add: heap3_def)
  have j: "1 < length [0, 1, 2 :: nat]" by simp
  have slot: "''optimal_RnA'' \<in> {key_added default_params, ''Rigid_3d_align_spatial'',
      ''Coarse_alignment'', ''optimal_RnA''}" by simp
  have raw: "obsm (heap3 ! 1) ''spatial'' = Some 2" by (simp add: heap3_def sample_of_def)
  have "ams ! 1 = 4" using init_copy_nth(1) [OF init valid j] by (simp add: heap3_def)
  with C5_seeded_slots_equal_raw_input [OF init valid j slot] raw init
  show ?thesis by (simp add: slot_after_def default_params_def)
qed

text \<open>The theorem of claim C3 on three samples and on one sample.\<close>

theorem C3_result_counts_witness:
  "result_sizes (morpho_align stub_ext default_params None heap3 [0, 1, 2]) = Some (3, 2, 2)
   \<and> result_sizes (morpho_align stub_ext default_params None heap3 [1]) = Some (1, 0, 0)"
proof -
  let ?r = "morpho_align stub_ext default_params None heap3 [0, 1, 2]"
  have "\<not> isl ?r" by code_simp
  then obtain h' ams pis sig where run: "?r = Inr (h', ams, pis, sig)"
    by (cases ?r) auto
  have m: "1 < length heap3" "obsm (heap3 ! 1) (spatial_key default_params) \<noteq> None"
    by (simp_all add: heap3_def sample_of_def default_params_def)
  from C3_result_counts [of stub_ext default_params None heap3 "[0, 1, 2]" h' ams pis sig 1] run m
  show ?thesis by (simp add: result_sizes_def)
qed

text \<open>
  Claim C4 as stated fails. On three samples with raw coordinates 1, 2, 3 and the default
  parameters, the copy of the second sample (object 4) starts the pair loop with the
  seeded slot \<^verbatim>\<open>"Rigid_3d_align_spatial"\<close> equal to 2 and without a slot
  \<^verbatim>\<open>"Rigid_align_spatial"\<close>; when the call returns, the seeded slot still holds 2 and
  the rigid-only output 3002 of the transform is under \<^verbatim>\<open>"Rigid_align_spatial"\<close>.
  And with \<^verbatim>\<open>key_added\<close> equal to \<^verbatim>\<open>spatial_key\<close> the registration writes its
  output 3 over the raw coordinates 2 of the second sample, and the transform is called
  on 3: its rigid-only output is 3003.
\<close>

theorem C4_seeded_rigid_slot_counterexample:
  "slot_after (morpho_align stub_ext default_params None heap3 [0, 1, 2]) 4
       ''Rigid_3d_align_spatial'' = Some 2
   \<and> slot_after (morpho_align stub_ext default_params None heap3 [0, 1, 2]) 4
       ''Rigid_align_spatial'' = Some 3002
   \<and> slot_after (morpho_align_init default_params heap3 [0, 1, 2]) 4
       ''Rigid_3d_align_spatial'' = Some 2
   \<and> slot_after (morpho_align_init default_params heap3 [0, 1, 2]) 4
       ''Rigid_align_spatial'' = None
   \<and> obsm (heap3 ! 1) (spatial_key params_same_key) = Some 2
   \<and> slot_after (morpho_align_prefix stub_ext params_same_key None heap3 [0, 1, 2] 1) 4
       (spatial_key params_same_key) = Some 3
   \<and> slot_after (morpho_align_prefix stub_ext params_same_key None heap3 [0, 1, 2] 1) 4
       ''Rigid_align_spatial'' = Some 3003
   \<and> slot_after (morpho_align stub_ext params_same_key None heap3 [0, 1, 2]) 4
       ''Rigid_align_spatial'' = Some 3003"
  by code_simp

text \<open>
  Claim C1 on the code. The caller's first sample (object 0) has no slot
  \<^verbatim>\<open>"align_spatial"\<close> and no slot \<^verbatim>\<open>"optimal_RnA"\<close> before the call of
  \<^verbatim>\<open>morpho_align\<close>, and has both when the call returns: lines 57 to 64 write on the
  caller's samples, before line 67 copies them.
\<close>

theorem C1_morpho_align_writes_on_input:
  "obsm (heap3 ! 0) ''align_spatial'' = None \<and> obsm (heap3 ! 0) ''optimal_RnA'' = None
   \<and> slot_after (morpho_align stub_ext default_params None heap3 [0, 1, 2]) 0 ''align_spatial''
       = Some 1
   \<and> slot_after (morpho_align stub_ext default_params None heap3 [0, 1, 2]) 0 ''optimal_RnA''
       = Some 1"
  by code_simp

text \<open>
  The theorem of claim C4 at the first pair of three samples: the registration leaves the
  raw coordinates 2 of the second sample where they are, and the transform is called on
  them.
\<close>

theorem C4_rigid_output_slot_witness:
  "slot_after (morpho_align_prefix stub_ext default_params None heap3 [0, 1, 2] 1) 4
       ''Rigid_align_spatial'' = Some 3002
   \<and> obsm (heap3 ! 1) ''spatial'' = Some 2"
proof -
  let ?E = stub_ext and ?p = default_params
  have "\<not> isl (morpho_align_prefix ?E ?p None heap3 [0, 1, 2] 1)" by code_simp
  then obtain h0 ams h1 p1 s1 where init: "morpho_align_init ?p heap3 [0, 1, 2] = Inr (h0, ams)"
    and succ: "morpho_align_upto ?E ?p None h0 ams (Suc 0) = Inr (h1, p1, s1)"
    and pre: "morpho_align_prefix ?E ?p None heap3 [0, 1, 2] 1 = Inr (h1, p1, s1)"
    by (elim morpho_align_prefix_Inr) simp
  have reach: "morpho_align_upto ?E ?p None h0 ams 0 = Inr (h0, [], [])"
    by (simp add: morpho_align_upto_def)
  have i: "0 + 1 < length [0, 1, 2 :: nat]" by simp
  have valid: "\<forall>m \<in> set [0, 1, 2]. m < length heap3" by (simp add: heap3_def)
  have b: "ams ! (0 + 1) = 4" using init_copy_nth(1) [OF init valid, of 1] by (simp add: heap3_def)
  have raw: "obsm (heap3 ! 1) ''spatial'' = Some 2" by (simp add: heap3_def sample_of_def)
  from C4_rigid_output_slot [OF init valid i reach succ]
  obtain lsm A' B' P s2 fld q t x r where
    reg: "BA_align ?E (?p\<lparr>spatial_key := ''optimal_RnA''\<rparr>) lsm (h0 ! (ams ! 0)) (h0 ! (ams ! (0 + 1)))
            = Inr (A', B', P, s2)"
    and kept: "obsm B' (spatial_key ?p) = obsm (h0 ! (ams ! (0 + 1))) (spatial_key ?p)
        \<longrightarrow> obsm (heap3 ! ([0, 1, 2] ! (0 + 1))) (spatial_key ?p) = Some q"
    and tr: "BA_transform ?E (passthrough ?p) fld q = Inr (t, x, r)"
    and res: "obsm (h1 ! (ams ! (0 + 1))) ''Rigid_align_spatial'' = Some r"
    by blast
  from reg have "obsm B' (spatial_key ?p) = obsm (h0 ! (ams ! (0 + 1))) (spatial_key ?p)"
    by (auto simp: stub_ext_def stub_BA_align_def default_params_def split: option.splits)
  with kept raw have "q = 2" by (simp add: default_params_def)
  with tr have "r = 3002" by (simp add: stub_ext_def stub_BA_transform_def)
  with res b pre raw show ?thesis by (simp add: slot_after_def)
qed

text \<open>
  The theorem of claim C10 at the second pair (loop index 1) of three samples with the
  labels x, y and x, y, y and x, y, with a registration that returns the number of ones in
  the matrix it is given. Sample A (object 4) and sample B (object 5) of that pair have the
  codes 0, 1, 1 and 0, 1; the matrix built from them with \<open>codeB[1] = 1\<close> is
  [[1, 0, 0], [1, 0, 0]], and 2 is what the registration of the pair returns.
\<close>

theorem C10_label_matrix_passed_to_register_witness:
  "last_pi (morpho_align_prefix stub_ext_sim default_params (Some ''celltype'') heap_lab3
      [0, 1, 2] 2) = Some 2
   \<and> obs_after (morpho_align_prefix stub_ext_sim default_params (Some ''celltype'') heap_lab3
      [0, 1, 2] 1) 4 ''celltype''
       = Some (Categorical [''x'', ''y''] [Some ''x'', Some ''y'', Some ''y''])
   \<and> obs_after (morpho_align_prefix stub_ext_sim default_params (Some ''celltype'') heap_lab3
      [0, 1, 2] 1) 5 ''celltype''
       = Some (Categorical [''x'', ''y''] [Some ''x'', Some ''y''])
   \<and> cat_codes [''x'', ''y''] [Some ''x'', Some ''y'', Some ''y'']
        [''x'', ''y''] [Some ''x'', Some ''y''] = ([0, 1, 1], [0, 1])
   \<and> LabelSimMat_of_codes 1 [0, 1, 1] [0, 1]
       = Inr \<lparr>nrows = 2, ncols = 3, cells = [[1, 0, 0], [1, 0, 0]]\<rparr>"
proof -
  let ?E = stub_ext_sim and ?p = default_params and ?lk = "''celltype''"
  let ?pre1 = "morpho_align_prefix ?E ?p (Some ?lk) heap_lab3 [0, 1, 2] 1"
  let ?pre2 = "morpho_align_prefix ?E ?p (Some ?lk) heap_lab3 [0, 1, 2] 2"
  have oA: "obs_after ?pre1 4 ?lk
      = Some (Categorical [''x'', ''y''] [Some ''x'', Some ''y'', Some ''y''])"
    by code_simp
  have oB: "obs_after ?pre1 5 ?lk = Some (Categorical [''x'', ''y''] [Some ''x'', Some ''y''])"
    by code_simp
  have codes: "cat_codes [''x'', ''y''] [Some ''x'', Some ''y'', Some ''y'']
        [''x'', ''y''] [Some ''x'', Some ''y''] = ([0, 1, 1], [0, 1])"
    by code_simp
  have L: "LabelSimMat_of_codes 1 [0, 1, 1] [0, 1]
      = Inr \<lparr>nrows = 2, ncols = 3, cells = [[1, 0, 0], [1, 0, 0]]\<rparr>"
    by code_simp
  have r2: "\<not> isl ?pre2" by code_simp
  from oA have "\<not> isl ?pre1" by (cases ?pre1) (simp_all add: obs_after_def)
  then obtain h0 ams h1 p1 s1 where init: "morpho_align_init ?p heap_lab3 [0, 1, 2] = Inr (h0, ams)"
    and reach: "morpho_align_upto ?E ?p (Some ?lk) h0 ams 1 = Inr (h1, p1, s1)"
    and pre1: "?pre1 = Inr (h1, p1, s1)"
    by (elim morpho_align_prefix_Inr) simp
  from r2 obtain h0' ams' h2 p2 s2 where
    init': "morpho_align_init ?p heap_lab3 [0, 1, 2] = Inr (h0', ams')"
    and succ': "morpho_align_upto ?E ?p (Some ?lk) h0' ams' 2 = Inr (h2, p2, s2)"
    and pre2: "?pre2 = Inr (h2, p2, s2)"
    by (elim morpho_align_prefix_Inr) simp
  from init init' have "h0' = h0" "ams' = ams" by simp_all
  with succ' have succ:
    "morpho_align_upto ?E ?p (Some ?lk) h0 ams (Suc 1) = Inr (h2, p2, s2)"
    by (simp add: numeral_2_eq_2)
  have valid: "\<forall>m \<in> set [0, 1, 2]. m < length heap_lab3" by (simp add: heap_lab3_def)
  have len: "length heap_lab3 = 3" by (simp add: heap_lab3_def)
  have a: "ams ! 1 = 4" using init_copy_nth(1) [OF init valid, of 1] len by simp
  have b2: "ams ! 2 = 5" using init_copy_nth(1) [OF init valid, of 2] len by simp
  have b: "ams ! (1 + 1) = 5" using b2 by (simp add: numeral_2_eq_2)
  from C10_label_matrix_passed_to_register [OF reach succ]
  obtain catsA catA catsB catB codeA codeB M A' B' P sg where
    colA: "obs (h1 ! (ams ! 1)) ?lk = Some (Categorical catsA catA)"
    and colB: "obs (h1 ! (ams ! (1 + 1))) ?lk = Some (Categorical catsB catB)"
    and cc: "cat_codes catsA catA catsB catB = (codeA, codeB)"
    and LM: "LabelSimMat_of_codes 1 codeA codeB = Inr M"
    and reg: "BA_align ?E (?p\<lparr>spatial_key := ''optimal_RnA''\<rparr>) (Some M)
               (h1 ! (ams ! 1)) (h1 ! (ams ! (1 + 1))) = Inr (A', B', P, sg)"
    and app: "p2 = p1 @ [P]"
    by blast
  from colA [unfolded a] oA pre1 have A: "catsA = [''x'', ''y'']" "catA = [Some ''x'', Some ''y'', Some ''y'']"
    by (simp_all add: obs_after_def)
  from colB [unfolded b] oB pre1 have B: "catsB = [''x'', ''y'']" "catB = [Some ''x'', Some ''y'']"
    by (simp_all add: obs_after_def)
  from cc codes A B have "codeA = [0, 1, 1]" "codeB = [0, 1]" by simp_all
  with LM L have M: "M = \<lparr>nrows = 2, ncols = 3, cells = [[1, 0, 0], [1, 0, 0]]\<rparr>" by simp
  from reg have "P = 2"
    unfolding M
    by (auto simp: stub_ext_sim_def stub_BA_align_sim_def stub_BA_align_def
             split: option.splits sum.splits)
  with app pre2 have "last_pi ?pre2 = Some 2" by (simp add: last_pi_def)
  with oA oB codes L show ?thesis by simp
qed

text \<open>
  The theorem of claim C8 on a chain of two labelled samples and an unlabelled third:
  the first pair completes, the second pair (loop index 1) finds the copy of the third
  sample (object 5) without the column, and the call fails.
\<close>

theorem C8_missing_label_fails_at_pair_witness:
  "lacks_after (morpho_align_prefix stub_ext default_params (Some ''celltype'') heap_lab [0, 1, 2] 1)
       5 ''celltype''
   \<and> (morpho_align stub_ext default_params (Some ''celltype'') heap_lab [0, 1, 2] = Inl KeyError
      \<or> morpho_align stub_ext default_params (Some ''celltype'') heap_lab [0, 1, 2]
          = Inl AttributeError)"
proof -
  let ?E = stub_ext and ?p = default_params and ?lk = "''celltype''"
  let ?pre = "morpho_align_prefix ?E ?p (Some ?lk) heap_lab [0, 1, 2] 1"
  have lacks: "lacks_after ?pre 5 ?lk" by code_simp
  then have "\<not> isl ?pre" by (cases ?pre) (simp_all add: lacks_after_def)
  then obtain h0 ams h1 p1 s1 where init: "morpho_align_init ?p heap_lab [0, 1, 2] = Inr (h0, ams)"
    and reach: "morpho_align_upto ?E ?p (Some ?lk) h0 ams 1 = Inr (h1, p1, s1)"
    and pre: "?pre = Inr (h1, p1, s1)"
    by (elim morpho_align_prefix_Inr) simp
  have i: "1 + 1 < length [0, 1, 2 :: nat]" by simp
  have valid: "\<forall>m \<in> set [0, 1, 2]. m < length heap_lab" by (simp add: heap_lab_def)
  have len: "length heap_lab = 3" by (simp add: heap_lab_def)
  have b: "ams ! 2 = 5"
    using init_copy_nth(1) [OF init valid, of 2] len by simp
  have b2: "ams ! (1 + 1) = 5" using b by (simp add: numeral_2_eq_2)
  from lacks pre b2 have
    "\<not> has_categorical ?lk (h1 ! (ams ! 1)) \<or> \<not> has_categorical ?lk (h1 ! (ams ! (1 + 1)))"
    by (simp add: lacks_after_def)
  from C8_missing_label_fails_at_pair [OF init i reach this] lacks
  show ?thesis by blast
qed

section \<open>Seeding and the pair loop of \<^verbatim>\<open>morpho_align_ref\<close>\<close>

lemma reference_models_Inr:
  assumes "reference_models E p n_sampling sampling_method h models models_ref = Inr (h1, refs)"
  shows "length h \<le> length h1" and "x < length h \<Longrightarrow> h1 ! x = h ! x"
    and "models_ref = Some given \<Longrightarrow> h1 = h \<and> refs = given"
  using assms unfolding reference_models_def copy_models_def
  by (auto split: option.splits sum.splits simp: nth_append)

lemma morpho_align_ref_init_unfold:
  assumes init: "morpho_align_ref_init p h models refs = Inr (h0, ams, arefs)"
  obtains h1 h2 h3 v where
    "copy_models h models = (h1, ams)"
    "copy_models h1 refs = (h2, arefs)"
    "seed_slot (spatial_key p) (key_added p) h2 arefs = Inr h3"
    "models \<noteq> []"
    "obsm (h3 ! length h) (spatial_key p) = Some v"
    "h0 = h3[length h := (h3 ! length h)\<lparr>obsm := (obsm (h3 ! length h))(key_added p \<mapsto> v)\<rparr>]"
proof -
  obtain h1 ams0 where c1: "copy_models h models = (h1, ams0)"
    by (cases "copy_models h models") auto
  obtain h2 ar0 where c2: "copy_models h1 refs = (h2, ar0)"
    by (cases "copy_models h1 refs") auto
  let ?seed = "seed_slot (spatial_key p) (key_added p) h2 ar0"
  from init c1 c2 obtain h3 where seed: "?seed = Inr h3"
    by (cases ?seed) (simp_all add: morpho_align_ref_init_def)
  from init c1 c2 seed obtain first rest where ams0: "ams0 = first # rest"
    by (cases ams0) (simp_all add: morpho_align_ref_init_def)
  from init c1 c2 seed ams0 obtain v where v: "obsm (h3 ! first) (spatial_key p) = Some v"
    by (cases "obsm (h3 ! first) (spatial_key p)") (simp_all add: morpho_align_ref_init_def)
  from init c1 c2 seed ams0 v have res:
    "h0 = h3[first := (h3 ! first)\<lparr>obsm := (obsm (h3 ! first))(key_added p \<mapsto> v)\<rparr>]"
    "ams = ams0" "arefs = ar0"
    by (simp_all add: morpho_align_ref_init_def)
  from copy_models_nth(2) [OF c1] ams0
  have "[length h ..< length h + length models] = first # rest" by simp
  then have ne: "models \<noteq> []" and first: "first = length h"
    by (simp_all add: upt_eq_Cons_conv)
  from that [of h1 h2 h3 v] c1 c2 seed ne v res first show thesis by simp
qed

lemma morpho_align_ref_init_Inr:
  assumes init: "morpho_align_ref_init p h models refs = Inr (h0, ams, arefs)"
  shows "ams = [length h ..< length h + length models]"
    and "arefs = [length h + length models ..< length h + length models + length refs]"
    and "length h0 = length h + length models + length refs"
    and "models \<noteq> []"
    and "x < length h \<Longrightarrow> h0 ! x = h ! x"
    and "models ! 0 < length h \<Longrightarrow>
           h0 ! (length h) = seeded_output p (deep_copy (length h) (h ! (models ! 0)))"
    and "0 < j \<Longrightarrow> j < length models \<Longrightarrow> models ! j < length h \<Longrightarrow>
           h0 ! (length h + j) = deep_copy (length h + j) (h ! (models ! j))"
    and "j < length refs \<Longrightarrow> refs ! j < length h \<Longrightarrow>
           h0 ! (length h + length models + j)
             = seeded_output p (deep_copy (length h + length models + j) (h ! (refs ! j)))"
proof -
  let ?L = "length h" and ?N = "length models" and ?R = "length refs"
  from init obtain h1 h2 h3 v where
    c1: "copy_models h models = (h1, ams)"
    and c2: "copy_models h1 refs = (h2, arefs)"
    and seed: "seed_slot (spatial_key p) (key_added p) h2 arefs = Inr h3"
    and ne: "models \<noteq> []"
    and v: "obsm (h3 ! ?L) (spatial_key p) = Some v"
    and h0: "h0 = h3[?L := (h3 ! ?L)\<lparr>obsm := (obsm (h3 ! ?L))(key_added p \<mapsto> v)\<rparr>]"
    by (rule morpho_align_ref_init_unfold)
  note C1 = copy_models_nth [OF c1] and C2 = copy_models_nth [OF c2]
  note r = seed_slot_Inr [OF seed]
  have len1: "length h1 = ?L + ?N" using C1(1) .
  have len2: "length h2 = ?L + ?N + ?R" using C2(1) len1 by simp
  have len3: "length h3 = ?L + ?N + ?R" using r len2 by simp
  have N: "0 < ?N" using ne by simp
  have ams: "ams = [?L ..< ?L + ?N]" using C1(2) .
  have arefs: "arefs = [?L + ?N ..< ?L + ?N + ?R]" using C2(2) len1 by simp
  show "ams = [?L ..< ?L + ?N]" by fact
  show "arefs = [?L + ?N ..< ?L + ?N + ?R]" by fact
  show "length h0 = ?L + ?N + ?R" using h0 len3 by simp
  show "models \<noteq> []" by fact
  have low3: "h3 ! x = h2 ! x" if "x < ?L + ?N" for x
  proof -
    have "x < length h2" "x \<notin> set arefs" using that len2 arefs by simp_all
    with r show ?thesis by simp
  qed
  have low2: "h2 ! x = h1 ! x" if "x < ?L + ?N" for x
    using that C2(3) [of x] len1 by simp
  show "h0 ! x = h ! x" if "x < ?L" for x
    using that h0 len3 low3 [of x] low2 [of x] C1(3) [of x] by simp
  have copy_j: "h3 ! (?L + j) = deep_copy (?L + j) (h ! (models ! j))" if "j < ?N" for j
    using that low3 [of "?L + j"] low2 [of "?L + j"] C1(4) [of j] by simp
  show "h0 ! ?L = seeded_output p (deep_copy ?L (h ! (models ! 0)))" if "models ! 0 < ?L"
  proof -
    have "h3 ! ?L = deep_copy ?L (h ! (models ! 0))" using copy_j [OF N] by simp
    with h0 len3 N v show ?thesis by (simp add: seeded_output_def)
  qed
  show "h0 ! (?L + j) = deep_copy (?L + j) (h ! (models ! j))"
    if "0 < j" "j < ?N" "models ! j < ?L"
    using that h0 len3 copy_j [of j] by simp
  show "h0 ! (?L + ?N + j) = seeded_output p (deep_copy (?L + ?N + j) (h ! (refs ! j)))"
    if j: "j < ?R" "refs ! j < ?L"
  proof -
    let ?a = "?L + ?N + j"
    have "?a < length h2" "?a \<in> set arefs" using j len2 arefs by simp_all
    with r have "h3 ! ?a = (h2 ! ?a)\<lparr>obsm :=
        (obsm (h2 ! ?a))(key_added p := obsm (h2 ! ?a) (spatial_key p))\<rparr>"
      by simp
    moreover have "h2 ! ?a = deep_copy ?a (h1 ! (refs ! j))"
      using C2(4) [OF j(1)] len1 by simp
    moreover have "h1 ! (refs ! j) = h ! (refs ! j)" using C1(3) [OF j(2)] .
    moreover have "h0 ! ?a = h3 ! ?a" using h0 N by simp
    ultimately show ?thesis by (simp add: seeded_output_def)
  qed
qed

lemma back_project_frame:
  assumes "back_project E p rfa h b_ref a b P = Inr (h', P')"
  shows "length h' = length h" and "x \<noteq> b \<Longrightarrow> h' ! x = h ! x"
  using assms unfolding back_project_def Let_def
  by (auto split: option.splits sum.splits prod.splits if_splits)

lemma back_project_field_again:
  assumes "uns (h ! b_ref) (vecfld_key_added p) = Some shared"
  shows "uns (h[b := with_field p shared (h ! b)] ! b_ref) (vecfld_key_added p) = Some shared"
  using assms
  by (cases "b = b_ref"; cases "b < length h") (simp_all add: with_field_def list_update_beyond)

lemma back_project_full:
  assumes "back_project E p True h b_ref a b P = Inr (h', P')"
  shows "\<exists>vecfld coords.
       uns (h ! b_ref) (vecfld_key_added p) = Some vecfld
     \<and> BA_transform_and_assignment E (passthrough p) (spatial_key p) vecfld
           (h[b := with_field p vecfld (h ! b)] ! b) (h[b := with_field p vecfld (h ! b)] ! a)
         = Inr (P', coords)
     \<and> h' = (h[b := with_field p vecfld (h ! b)])
              [b := (h[b := with_field p vecfld (h ! b)] ! b)\<lparr>obsm :=
                      (obsm (h[b := with_field p vecfld (h ! b)] ! b))(key_added p \<mapsto> coords)\<rparr>]"
proof -
  from assms obtain shared where sh: "uns (h ! b_ref) (vecfld_key_added p) = Some shared"
    by (auto simp: back_project_def split: option.splits)
  note again = back_project_field_again [OF sh, of b]
  from assms sh again show ?thesis
    unfolding back_project_def Let_def with_field_def [symmetric]
    by (auto split: sum.splits prod.splits)
qed

lemma back_project_plain:
  assumes "back_project E p False h b_ref a b P = Inr (h', P')"
  shows "\<exists>vecfld quary_points coords x rigid.
       uns (h ! b_ref) (vecfld_key_added p) = Some vecfld
     \<and> obsm (h[b := with_field p vecfld (h ! b)] ! b) (spatial_key p) = Some quary_points
     \<and> BA_transform E (passthrough p) vecfld quary_points = Inr (coords, x, rigid)
     \<and> h' = (h[b := with_field p vecfld (h ! b)])
              [b := (h[b := with_field p vecfld (h ! b)] ! b)\<lparr>obsm :=
                      ((obsm (h[b := with_field p vecfld (h ! b)] ! b))(key_added p \<mapsto> coords))
                        (''Rigid_align_spatial'' \<mapsto> rigid)\<rparr>]
     \<and> P' = P"
proof -
  from assms obtain shared where sh: "uns (h ! b_ref) (vecfld_key_added p) = Some shared"
    by (auto simp: back_project_def split: option.splits)
  note again = back_project_field_again [OF sh, of b]
  from assms sh again show ?thesis
    unfolding back_project_def Let_def with_field_def [symmetric]
    by (auto split: sum.splits prod.splits option.splits)
qed

lemma align_pair_ref_Inr:
  assumes "align_pair_ref E p rfa ams i (h, arefs, pis, pis_ref, sig)
             = Inr (h', arefs', pis', pis_ref', sig')"
  obtains A' B' P s2 P' where
    "i + 1 < length arefs"
    "BA_align E (p\<lparr>spatial_key := key_added p\<rparr>) None (h ! (arefs ! i)) (h ! (arefs ! (i + 1)))
       = Inr (A', B', P, s2)"
    "back_project E p rfa (h[arefs ! i := A', arefs ! (i + 1) := B']) (arefs ! (i + 1))
       (ams ! i) (ams ! (i + 1)) P = Inr (h', P')"
    "arefs' = arefs" "pis' = pis @ [P']" "pis_ref' = pis_ref @ [P]" "sig' = sig @ [s2]"
proof -
  let ?reg = "BA_align E (p\<lparr>spatial_key := key_added p\<rparr>) None
                (h ! (arefs ! i)) (h ! (arefs ! (i + 1)))"
  from assms have i: "i + 1 < length arefs"
    by (cases "i + 1 < length arefs") (simp_all add: align_pair_ref_def)
  from assms i obtain r where reg: "?reg = Inr r"
    by (cases ?reg) (simp_all add: align_pair_ref_def Let_def)
  obtain A' B' P s2 where r: "r = (A', B', P, s2)" by (cases r) auto
  let ?bp = "back_project E p rfa (h[arefs ! i := A', arefs ! (i + 1) := B']) (arefs ! (i + 1))
       (ams ! i) (ams ! (i + 1)) P"
  from assms i reg r obtain res where bp: "?bp = Inr res"
    by (cases ?bp) (simp_all add: align_pair_ref_def Let_def)
  obtain h2 P' where res: "res = (h2, P')" by (cases res) auto
  from assms i reg r bp res have
    "h' = h2" "arefs' = arefs" "pis' = pis @ [P']" "pis_ref' = pis_ref @ [P]" "sig' = sig @ [s2]"
    by (simp_all add: align_pair_ref_def Let_def)
  with that [of A' B' P s2 P'] i reg r bp res show thesis by simp
qed

lemma ref_loop_lists:
  "for_loop (align_pair_ref E p rfa ams) xs (h, arefs, pis, pr, sig)
     = Inr (h', arefs', pis', pr', sig') \<Longrightarrow>
   length h' = length h \<and> arefs' = arefs
   \<and> (\<exists>ps rs ss. pis' = pis @ ps \<and> pr' = pr @ rs \<and> sig' = sig @ ss
         \<and> length ps = length xs \<and> length rs = length xs \<and> length ss = length xs)"
proof (induction xs arbitrary: h arefs pis pr sig)
  case Nil
  then show ?case by simp
next
  case (Cons i rest)
  from Cons.prems obtain st1 where
    step: "align_pair_ref E p rfa ams i (h, arefs, pis, pr, sig) = Inr st1"
    and run: "for_loop (align_pair_ref E p rfa ams) rest st1 = Inr (h', arefs', pis', pr', sig')"
    by (cases "align_pair_ref E p rfa ams i (h, arefs, pis, pr, sig)") simp_all
  obtain h1 a1 pis1 pr1 sig1 where st1: "st1 = (h1, a1, pis1, pr1, sig1)"
    by (cases st1) auto
  from step [unfolded st1] obtain A' B' P s2 P' where
    bp: "back_project E p rfa (h[arefs ! i := A', arefs ! (i + 1) := B']) (arefs ! (i + 1))
       (ams ! i) (ams ! (i + 1)) P = Inr (h1, P')"
    and l: "a1 = arefs" "pis1 = pis @ [P']" "pr1 = pr @ [P]" "sig1 = sig @ [s2]"
    by (rule align_pair_ref_Inr)
  have len1: "length h1 = length h" using back_project_frame(1) [OF bp] by simp
  from Cons.IH [OF run [unfolded st1]] l len1 show ?case by auto
qed

lemma align_pair_ref_frame:
  assumes step: "align_pair_ref E p rfa ams i (h, arefs, pis, pr, sig)
             = Inr (h', arefs', pis', pr', sig')"
    and x: "x \<noteq> arefs ! i" "x \<noteq> arefs ! (i + 1)" "x \<noteq> ams ! (i + 1)"
  shows "h' ! x = h ! x"
proof -
  from step obtain A' B' P P' where
    bp: "back_project E p rfa (h[arefs ! i := A', arefs ! (i + 1) := B']) (arefs ! (i + 1))
       (ams ! i) (ams ! (i + 1)) P = Inr (h', P')"
    by (rule align_pair_ref_Inr)
  from back_project_frame(2) [OF bp, of x] x show ?thesis by simp
qed

lemma ref_loop_frame:
  assumes "for_loop (align_pair_ref E p rfa ams) xs (h, arefs, pis, pr, sig)
     = Inr (h', arefs', pis', pr', sig')"
    and "\<forall>i \<in> set xs. x \<noteq> ams ! (i + 1)" and "\<forall>a \<in> set arefs. x \<noteq> a"
  shows "h' ! x = h ! x"
  using assms
proof (induction xs arbitrary: h pis pr sig)
  case Nil
  then show ?case by simp
next
  case (Cons i rest)
  from Cons.prems(1) obtain st1 where
    step: "align_pair_ref E p rfa ams i (h, arefs, pis, pr, sig) = Inr st1"
    and run: "for_loop (align_pair_ref E p rfa ams) rest st1 = Inr (h', arefs', pis', pr', sig')"
    by (cases "align_pair_ref E p rfa ams i (h, arefs, pis, pr, sig)") simp_all
  obtain h1 a1 pis1 pr1 sig1 where st1: "st1 = (h1, a1, pis1, pr1, sig1)"
    by (cases st1) auto
  from step [unfolded st1] have a1: "a1 = arefs" and i: "i + 1 < length arefs"
    by (rule align_pair_ref_Inr, simp)+
  from i have "arefs ! i \<in> set arefs" "arefs ! (i + 1) \<in> set arefs" by simp_all
  with Cons.prems(3) have "x \<noteq> arefs ! i" "x \<noteq> arefs ! (i + 1)" by blast+
  with align_pair_ref_frame [OF step [unfolded st1], of x] Cons.prems(2)
  have "h1 ! x = h ! x" by simp
  moreover have "h' ! x = h1 ! x"
    using Cons.IH [OF run [unfolded st1 a1]] Cons.prems(2,3) by simp
  ultimately show ?case by simp
qed

lemma morpho_align_ref_upto_Suc:
  "morpho_align_ref_upto E p rfa h0 ams arefs (Suc k) =
     (case morpho_align_ref_upto E p rfa h0 ams arefs k of
        Inl e \<Rightarrow> Inl e
      | Inr st \<Rightarrow> align_pair_ref E p rfa ams k st)"
  by (simp only: morpho_align_ref_upto_def for_loop_upt_Suc)

lemma ref_upto_state:
  assumes "morpho_align_ref_upto E p rfa h0 ams arefs k = Inr (hk, ak, pk, rk, sk)"
  shows "length hk = length h0" and "ak = arefs"
    and "length pk = k" and "length rk = k" and "length sk = k"
  using ref_loop_lists [OF assms [unfolded morpho_align_ref_upto_def]] by auto

lemma ref_upto_untouched:
  assumes init: "morpho_align_ref_init p h models refs = Inr (h0, ams, arefs)"
    and reach: "morpho_align_ref_upto E p rfa h0 ams arefs k = Inr (hk, ak, pk, rk, sk)"
    and kj: "k < j \<or> j = 0" and j: "j < length models" and k: "k \<le> length models - 1"
  shows "hk ! (ams ! j) = h0 ! (ams ! j)"
proof -
  note I = morpho_align_ref_init_Inr [OF init]
  have aj: "ams ! j = length h + j" using I(1) j by simp
  show ?thesis
    unfolding aj
  proof (rule ref_loop_frame [OF reach [unfolded morpho_align_ref_upto_def]])
    show "\<forall>i \<in> set [0..<k]. length h + j \<noteq> ams ! (i + 1)"
    proof
      fix i assume "i \<in> set [0..<k]"
      then have ik: "i < k" by simp
      with k j have "i + 1 < length models" by simp
      then have "ams ! (i + 1) = length h + (i + 1)" using I(1) by simp
      with ik kj show "length h + j \<noteq> ams ! (i + 1)" by auto
    qed
    show "\<forall>a \<in> set arefs. length h + j \<noteq> a" using I(2) j by auto
  qed
qed

lemma morpho_align_ref_Inr:
  assumes "morpho_align_ref E p ns sm rfa h models mref = Inr (h', ams, arefs', pis, pr, sg)"
  obtains h1 refs h0 arefs where
    "reference_models E p ns sm h models mref = Inr (h1, refs)"
    "morpho_align_ref_init p h1 models refs = Inr (h0, ams, arefs)"
    "for_loop (align_pair_ref E p rfa ams) [0..<length ams - 1] (h0, arefs, [], [], [])
       = Inr (h', arefs', pis, pr, sg)"
proof -
  from assms obtain r1 where r1: "reference_models E p ns sm h models mref = Inr r1"
    by (cases "reference_models E p ns sm h models mref") (simp_all add: morpho_align_ref_def)
  obtain h1 refs where r1': "r1 = (h1, refs)" by (cases r1) auto
  from assms r1 r1' obtain r2 where r2: "morpho_align_ref_init p h1 models refs = Inr r2"
    by (cases "morpho_align_ref_init p h1 models refs") (simp_all add: morpho_align_ref_def)
  obtain h0 ams0 arefs where r2': "r2 = (h0, ams0, arefs)" by (cases r2) auto
  let ?loop = "for_loop (align_pair_ref E p rfa ams0) [0..<length ams0 - 1] (h0, arefs, [], [], [])"
  from assms r1 r1' r2 r2' obtain r3 where r3: "?loop = Inr r3"
    by (cases ?loop) (simp_all add: morpho_align_ref_def iteration_pairs)
  obtain a b c d e where r3': "r3 = (a, b, c, d, e)" by (cases r3) auto
  from assms r1 r1' r2 r2' r3 r3' have "ams0 = ams" "a = h'" "b = arefs'" "c = pis" "d = pr" "e = sg"
    by (simp_all add: morpho_align_ref_def iteration_pairs)
  with that [of h1 refs h0 arefs] r1 r1' r2 r2' r3 r3' show thesis by simp
qed

lemma morpho_align_ref_frame:
  assumes run: "morpho_align_ref E p ns sm rfa h models mref = Inr (h', ams, arefs', pis, pr, sg)"
    and x: "x < length h"
  shows "h' ! x = h ! x"
proof -
  from run obtain h1 refs h0 arefs where
    rm: "reference_models E p ns sm h models mref = Inr (h1, refs)"
    and init: "morpho_align_ref_init p h1 models refs = Inr (h0, ams, arefs)"
    and loop: "for_loop (align_pair_ref E p rfa ams) [0..<length ams - 1] (h0, arefs, [], [], [])
       = Inr (h', arefs', pis, pr, sg)"
    by (rule morpho_align_ref_Inr)
  note R = reference_models_Inr [OF rm]
  note I = morpho_align_ref_init_Inr [OF init]
  from x R(1) have x1: "x < length h1" by simp
  have "h' ! x = h0 ! x"
  proof (rule ref_loop_frame [OF loop])
    show "\<forall>i \<in> set [0..<length ams - 1]. x \<noteq> ams ! (i + 1)"
      using I(1) x1 by auto
    show "\<forall>a \<in> set arefs. x \<noteq> a" using I(2) x1 by auto
  qed
  also have "h0 ! x = h1 ! x" using I(5) [OF x1] .
  also have "h1 ! x = h ! x" using R(2) [OF x] .
  finally show ?thesis .
qed

section \<open>What the pair loop of \<^verbatim>\<open>morpho_align_ref\<close> writes\<close>

text \<open>
  Claim C6. In \<^verbatim>\<open>morpho_align_ref\<close>, when the pair loop starts every reference copy
  and the first full-resolution copy are the copies of the input samples with the output
  slot \<^verbatim>\<open>key_added\<close> set to the raw coordinates, and every other full-resolution
  copy is the copy of the input sample as it was. The first copy is never written by the
  loop. A full-resolution copy \<open>j > 0\<close> is still the untouched copy of the input sample
  after any \<open>k < j\<close> pairs; its state after \<open>j\<close> pairs is what the back-projection
  of pair \<open>j - 1\<close> returned, started on a store in which it was still untouched; and
  no later pair changes it.
\<close>

theorem C6_output_slot_written_only_by_own_back_projection:
  assumes init: "morpho_align_ref_init p h models refs = Inr (h0, ams, arefs)"
    and valid: "\<forall>m \<in> set models \<union> set refs. m < length h"
    and j: "j < length models" and k: "k \<le> length models - 1"
    and reach: "morpho_align_ref_upto E p rfa h0 ams arefs k = Inr (hk, ak, pk, rk, sk)"
  shows "(\<forall>r < length refs. h0 ! (arefs ! r) = seeded_output p (deep_copy (arefs ! r) (h ! (refs ! r))))
       \<and> h0 ! (ams ! 0) = seeded_output p (deep_copy (ams ! 0) (h ! (models ! 0)))
       \<and> (0 < j \<longrightarrow> h0 ! (ams ! j) = deep_copy (ams ! j) (h ! (models ! j)))
       \<and> (j = 0 \<longrightarrow> hk ! (ams ! j) = h0 ! (ams ! j))
       \<and> (k < j \<longrightarrow> hk ! (ams ! j) = deep_copy (ams ! j) (h ! (models ! j)))
       \<and> (0 < j \<and> j \<le> k \<longrightarrow>
            (\<exists>hm hb aj pj rj sj P P'.
               morpho_align_ref_upto E p rfa h0 ams arefs j = Inr (hb, aj, pj, rj, sj)
             \<and> back_project E p rfa hm (arefs ! j) (ams ! (j - 1)) (ams ! j) P = Inr (hb, P')
             \<and> hm ! (ams ! j) = deep_copy (ams ! j) (h ! (models ! j))
             \<and> hk ! (ams ! j) = hb ! (ams ! j)))"
proof -
  note I = morpho_align_ref_init_Inr [OF init]
  let ?L = "length h" and ?N = "length models"
  have am: "ams ! n = ?L + n" if "n < ?N" for n using I(1) that by simp
  have ar: "arefs ! r = ?L + ?N + r" if "r < length refs" for r using I(2) that by simp
  have vm: "models ! n < ?L" if "n < ?N" for n using valid that by simp
  have vr: "refs ! r < ?L" if "r < length refs" for r using valid that by simp
  have N: "0 < ?N" using I(4) by simp
  have c1: "\<forall>r < length refs. h0 ! (arefs ! r) = seeded_output p (deep_copy (arefs ! r) (h ! (refs ! r)))"
    using ar vr I(8) by simp
  have c2: "h0 ! (ams ! 0) = seeded_output p (deep_copy (ams ! 0) (h ! (models ! 0)))"
    using am [OF N] vm [OF N] I(6) by simp
  have c3: "h0 ! (ams ! n) = deep_copy (ams ! n) (h ! (models ! n))" if "0 < n" "n < ?N" for n
    using that am [of n] vm [of n] I(7) [of n] by simp
  have c4: "hk ! (ams ! j) = h0 ! (ams ! j)" if "j = 0"
    using ref_upto_untouched [OF init reach _ j k] that by simp
  have c5: "hk ! (ams ! j) = deep_copy (ams ! j) (h ! (models ! j))" if "k < j"
    using ref_upto_untouched [OF init reach _ j k] that c3 [of j] j by simp
  have c6: "\<exists>hm hb aj pj rj sj P P'.
               morpho_align_ref_upto E p rfa h0 ams arefs j = Inr (hb, aj, pj, rj, sj)
             \<and> back_project E p rfa hm (arefs ! j) (ams ! (j - 1)) (ams ! j) P = Inr (hb, P')
             \<and> hm ! (ams ! j) = deep_copy (ams ! j) (h ! (models ! j))
             \<and> hk ! (ams ! j) = hb ! (ams ! j)" if j0: "0 < j" and jk: "j \<le> k"
  proof -
    let ?body = "align_pair_ref E p rfa ams"
    let ?s0 = "(h0, arefs, [], [], [])"
    obtain j' where j': "j = Suc j'" using j0 by (cases j) auto
    from for_loop_prefix [OF reach [unfolded morpho_align_ref_upto_def] jk] obtain sj where
      pre: "for_loop ?body [0..<j] ?s0 = Inr sj"
      and post: "for_loop ?body [j..<k] sj = Inr (hk, ak, pk, rk, sk)"
      by blast
    obtain hb aj pj rj sgj where sj: "sj = (hb, aj, pj, rj, sgj)" by (cases sj) auto
    from pre [unfolded j' for_loop_upt_Suc] obtain sp where
      prev: "for_loop ?body [0..<j'] ?s0 = Inr sp" and step: "?body j' sp = Inr sj"
      by (cases "for_loop ?body [0..<j'] ?s0") simp_all
    obtain hp ap pp rp sgp where sp: "sp = (hp, ap, pp, rp, sgp)" by (cases sp) auto
    have prev': "morpho_align_ref_upto E p rfa h0 ams arefs j' = Inr (hp, ap, pp, rp, sgp)"
      using prev sp by (simp add: morpho_align_ref_upto_def)
    note Sp = ref_upto_state [OF prev']
    from step [unfolded sp sj] obtain A' B' P s2 P' where
      ir: "j' + 1 < length ap"
      and bp: "back_project E p rfa (hp[ap ! j' := A', ap ! (j' + 1) := B']) (ap ! (j' + 1))
         (ams ! j') (ams ! (j' + 1)) P = Inr (hb, P')"
      by (rule align_pair_ref_Inr)
    let ?hm = "hp[arefs ! j' := A', arefs ! j := B']"
    have lenr: "length arefs = length refs" using I(2) by simp
    from ir Sp(2) lenr have jr: "j < length refs" "j' < length refs" by (simp_all add: j')
    have untouched: "hp ! (ams ! j) = deep_copy (ams ! j) (h ! (models ! j))"
      using ref_upto_untouched [OF init prev' _ j] c3 [OF j0 j] j j' by simp
    have ne: "?L + ?N + j' \<noteq> ?L + j" "?L + ?N + j \<noteq> ?L + j" using j by arith+
    have "?hm ! (ams ! j) = hp ! (ams ! j)"
      using ne by (simp add: am [OF j] ar [OF jr(1)] ar [OF jr(2)])
    with untouched have hm: "?hm ! (ams ! j) = deep_copy (ams ! j) (h ! (models ! j))" by simp
    have bp': "back_project E p rfa ?hm (arefs ! j) (ams ! (j - 1)) (ams ! j) P = Inr (hb, P')"
      using bp Sp(2) by (simp add: j')
    have later: "hk ! (ams ! j) = hb ! (ams ! j)"
      unfolding am [OF j]
    proof (rule ref_loop_frame [OF post [unfolded sj]])
      show "\<forall>i \<in> set [j..<k]. ?L + j \<noteq> ams ! (i + 1)"
      proof
        fix i assume "i \<in> set [j..<k]"
        then have i: "j \<le> i" "i < k" by simp_all
        with k N have "i + 1 < ?N" by simp
        from am [OF this] i show "?L + j \<noteq> ams ! (i + 1)" by simp
      qed
      have "aj = arefs"
        using ref_loop_lists [OF pre [unfolded sj]] by simp
      then show "\<forall>a \<in> set aj. ?L + j \<noteq> a" using I(2) j by auto
    qed
    have "morpho_align_ref_upto E p rfa h0 ams arefs j = Inr (hb, aj, pj, rj, sgj)"
      using pre sj by (simp add: morpho_align_ref_upto_def)
    with bp' hm later show ?thesis by blast
  qed
  from c1 c2 c3 [of j] j c4 c5 c6 show ?thesis by blast
qed

text \<open>
  Claim C7, amended. In \<^verbatim>\<open>morpho_align_ref\<close>, for every pair index \<open>i\<close> that
  completes, the field that \<^verbatim>\<open>BA_align\<close> left under \<^verbatim>\<open>vecfld_key_added\<close> of
  reference sample \<open>i + 1\<close> is stored under the same key of full-resolution sample
  \<open>i + 1\<close> as a shared reference: after the pair both samples hold the same reference
  (line 215 assigns it), which is the reference of no copy of the reference sample's
  field, whatever object the copy would be made for. That field is the one passed to the
  back-projection call (\<^verbatim>\<open>BA_transform_and_assignment\<close> on \<^verbatim>\<open>[modelB, modelA]\<close>, or
  \<^verbatim>\<open>BA_transform\<close> on sample B's raw coordinates) whose output becomes the output slot
  of full-resolution sample \<open>i + 1\<close>. Each chain keeps the length of its own input list
  throughout: the full-resolution chain that of \<^verbatim>\<open>models\<close>, the reference chain that
  of the reference list.
\<close>

theorem C7_field_shared_and_passed_on:
  assumes init: "morpho_align_ref_init p h models refs = Inr (h0, ams, arefs)"
    and i: "i + 1 < length models"
    and reach: "morpho_align_ref_upto E p rfa h0 ams arefs i = Inr (hi, ai, pis, pr, sg)"
    and succ: "morpho_align_ref_upto E p rfa h0 ams arefs (Suc i) = Inr (hi', ai', pis', pr', sg')"
  shows "\<exists>modelA_ref' modelB_ref' P sigma2 vecfld.
           BA_align E (p\<lparr>spatial_key := key_added p\<rparr>) None
               (hi ! (arefs ! i)) (hi ! (arefs ! (i + 1)))
             = Inr (modelA_ref', modelB_ref', P, sigma2)
         \<and> uns modelB_ref' (vecfld_key_added p) = Some vecfld
         \<and> hi' ! (arefs ! (i + 1)) = modelB_ref'
         \<and> uns (hi' ! (ams ! (i + 1))) (vecfld_key_added p) = Some vecfld
         \<and> uns (hi' ! (ams ! (i + 1))) (vecfld_key_added p)
             = uns (hi' ! (arefs ! (i + 1))) (vecfld_key_added p)
         \<and> (\<forall>a. uns (hi' ! (ams ! (i + 1))) (vecfld_key_added p)
                  \<noteq> uns (deep_copy a (hi' ! (arefs ! (i + 1)))) (vecfld_key_added p))
         \<and> (rfa \<longrightarrow> (\<exists>P' coords.
               BA_transform_and_assignment E (passthrough p) (spatial_key p) vecfld
                   (with_field p vecfld (hi ! (ams ! (i + 1)))) (hi ! (ams ! i))
                 = Inr (P', coords)
             \<and> hi' ! (ams ! (i + 1))
                 = (with_field p vecfld (hi ! (ams ! (i + 1))))\<lparr>obsm :=
                     (obsm (hi ! (ams ! (i + 1))))(key_added p \<mapsto> coords)\<rparr>
             \<and> pis' = pis @ [P']))
         \<and> (\<not> rfa \<longrightarrow> (\<exists>quary_points coords x rigid.
               obsm (hi ! (ams ! (i + 1))) (spatial_key p) = Some quary_points
             \<and> BA_transform E (passthrough p) vecfld quary_points = Inr (coords, x, rigid)
             \<and> hi' ! (ams ! (i + 1))
                 = (with_field p vecfld (hi ! (ams ! (i + 1))))\<lparr>obsm :=
                     ((obsm (hi ! (ams ! (i + 1))))(key_added p \<mapsto> coords))
                       (''Rigid_align_spatial'' \<mapsto> rigid)\<rparr>
             \<and> pis' = pis @ [P]))
         \<and> length ams = length models \<and> length arefs = length refs
         \<and> ai = arefs \<and> ai' = arefs"
proof -
  note I = morpho_align_ref_init_Inr [OF init]
  note Si = ref_upto_state [OF reach]
  let ?L = "length h" and ?N = "length models" and ?R = "length refs"
  from succ reach have step:
    "align_pair_ref E p rfa ams i (hi, ai, pis, pr, sg) = Inr (hi', ai', pis', pr', sg')"
    by (simp add: morpho_align_ref_upto_Suc)
  from step [unfolded Si(2)] obtain A' B' P s2 P' where
    ir: "i + 1 < length arefs"
    and reg: "BA_align E (p\<lparr>spatial_key := key_added p\<rparr>) None
                (hi ! (arefs ! i)) (hi ! (arefs ! (i + 1))) = Inr (A', B', P, s2)"
    and bp: "back_project E p rfa (hi[arefs ! i := A', arefs ! (i + 1) := B']) (arefs ! (i + 1))
         (ams ! i) (ams ! (i + 1)) P = Inr (hi', P')"
    and lists: "ai' = arefs" "pis' = pis @ [P']"
    by (rule align_pair_ref_Inr)
  have lens: "length ams = ?N" "length arefs = ?R" using I(1,2) by simp_all
  from ir lens have iR: "i + 1 < ?R" by simp
  have a: "ams ! i = ?L + i" and b: "ams ! (i + 1) = ?L + i + 1"
    using I(1) i by simp_all
  have ra: "arefs ! i = ?L + ?N + i" and rb: "arefs ! (i + 1) = ?L + ?N + i + 1"
    using I(2) iR by simp_all
  have leni: "length hi = ?L + ?N + ?R" using Si(1) I(3) by simp
  let ?hm = "hi[arefs ! i := A', arefs ! (i + 1) := B']"
  let ?B0 = "hi ! (ams ! (i + 1))" and ?A0 = "hi ! (ams ! i)"
  have ne: "?L + ?N + i \<noteq> ?L + i + 1" "?L + ?N + i + 1 \<noteq> ?L + i + 1"
    "?L + ?N + i \<noteq> ?L + i" "?L + ?N + i + 1 \<noteq> ?L + i" "?L + ?N + i \<noteq> ?L + ?N + i + 1"
    using i by arith+
  have hm_rb: "?hm ! (arefs ! (i + 1)) = B'"
    unfolding ra rb using leni iR by simp
  have hm_b: "?hm ! (ams ! (i + 1)) = ?B0" unfolding a b ra rb using ne by simp
  have hm_a: "?hm ! (ams ! i) = ?A0" unfolding a b ra rb using ne by simp
  have blen: "ams ! (i + 1) < length ?hm" unfolding b using leni i by simp
  have ab: "ams ! i \<noteq> ams ! (i + 1)" unfolding a b by simp
  have rbb: "arefs ! (i + 1) \<noteq> ams ! (i + 1)" unfolding b rb using ne by simp
  have keep: "hi' ! (arefs ! (i + 1)) = B'"
    using back_project_frame(2) [OF bp rbb] hm_rb by simp
  show ?thesis
  proof (cases rfa)
    case True
    with bp have bpT: "back_project E p True ?hm (arefs ! (i + 1)) (ams ! i) (ams ! (i + 1)) P
        = Inr (hi', P')" by simp
    from back_project_full [OF bpT] obtain vecfld coords where
      f: "uns (?hm ! (arefs ! (i + 1))) (vecfld_key_added p) = Some vecfld"
      and call: "BA_transform_and_assignment E (passthrough p) (spatial_key p) vecfld
           (?hm[ams ! (i + 1) := with_field p vecfld (?hm ! (ams ! (i + 1)))] ! (ams ! (i + 1)))
           (?hm[ams ! (i + 1) := with_field p vecfld (?hm ! (ams ! (i + 1)))] ! (ams ! i))
         = Inr (P', coords)"
      and h': "hi' = (?hm[ams ! (i + 1) := with_field p vecfld (?hm ! (ams ! (i + 1)))])
              [ams ! (i + 1) :=
                 (?hm[ams ! (i + 1) := with_field p vecfld (?hm ! (ams ! (i + 1)))] ! (ams ! (i + 1)))
                   \<lparr>obsm := (obsm (?hm[ams ! (i + 1) :=
                        with_field p vecfld (?hm ! (ams ! (i + 1)))] ! (ams ! (i + 1))))
                      (key_added p \<mapsto> coords)\<rparr>]"
      by blast
    have one: "?hm[ams ! (i + 1) := with_field p vecfld (?hm ! (ams ! (i + 1)))] ! (ams ! (i + 1))
        = with_field p vecfld ?B0"
      using blen hm_b by simp
    have two: "?hm[ams ! (i + 1) := with_field p vecfld (?hm ! (ams ! (i + 1)))] ! (ams ! i) = ?A0"
      using ab hm_a by simp
    have at_b: "hi' ! (ams ! (i + 1))
        = (with_field p vecfld ?B0)\<lparr>obsm := (obsm ?B0)(key_added p \<mapsto> coords)\<rparr>"
      unfolding h' one using blen by (simp add: with_field_def)
    have fld_b: "uns (hi' ! (ams ! (i + 1))) (vecfld_key_added p) = Some vecfld"
      unfolding at_b by (simp add: with_field_def)
    have fld_r: "uns B' (vecfld_key_added p) = Some vecfld" using f hm_rb by simp
    have same: "uns (hi' ! (ams ! (i + 1))) (vecfld_key_added p)
        = uns (hi' ! (arefs ! (i + 1))) (vecfld_key_added p)"
      using fld_b fld_r keep by simp
    have nocopy: "\<forall>a. uns (hi' ! (ams ! (i + 1))) (vecfld_key_added p)
        \<noteq> uns (deep_copy a (hi' ! (arefs ! (i + 1)))) (vecfld_key_added p)"
      using fld_b fld_r keep by simp
    have "BA_transform_and_assignment E (passthrough p) (spatial_key p) vecfld
        (with_field p vecfld ?B0) ?A0 = Inr (P', coords)"
      using call one two by simp
    with fld_b fld_r same nocopy show ?thesis
      using reg keep at_b lists lens Si(2) True by blast
  next
    case False
    with bp have bpF: "back_project E p False ?hm (arefs ! (i + 1)) (ams ! i) (ams ! (i + 1)) P
        = Inr (hi', P')" by simp
    from back_project_plain [OF bpF] obtain vecfld q coords x rigid where
      f: "uns (?hm ! (arefs ! (i + 1))) (vecfld_key_added p) = Some vecfld"
      and q: "obsm (?hm[ams ! (i + 1) := with_field p vecfld (?hm ! (ams ! (i + 1)))]
                 ! (ams ! (i + 1))) (spatial_key p) = Some q"
      and call: "BA_transform E (passthrough p) vecfld q = Inr (coords, x, rigid)"
      and h': "hi' = (?hm[ams ! (i + 1) := with_field p vecfld (?hm ! (ams ! (i + 1)))])
              [ams ! (i + 1) :=
                 (?hm[ams ! (i + 1) := with_field p vecfld (?hm ! (ams ! (i + 1)))] ! (ams ! (i + 1)))
                   \<lparr>obsm := ((obsm (?hm[ams ! (i + 1) :=
                        with_field p vecfld (?hm ! (ams ! (i + 1)))] ! (ams ! (i + 1))))
                      (key_added p \<mapsto> coords))(''Rigid_align_spatial'' \<mapsto> rigid)\<rparr>]"
      and P: "P' = P"
      by blast
    have one: "?hm[ams ! (i + 1) := with_field p vecfld (?hm ! (ams ! (i + 1)))] ! (ams ! (i + 1))
        = with_field p vecfld ?B0"
      using blen hm_b by simp
    have at_b: "hi' ! (ams ! (i + 1))
        = (with_field p vecfld ?B0)\<lparr>obsm := ((obsm ?B0)(key_added p \<mapsto> coords))
             (''Rigid_align_spatial'' \<mapsto> rigid)\<rparr>"
      unfolding h' one using blen by (simp add: with_field_def)
    have fld_b: "uns (hi' ! (ams ! (i + 1))) (vecfld_key_added p) = Some vecfld"
      unfolding at_b by (simp add: with_field_def)
    have fld_r: "uns B' (vecfld_key_added p) = Some vecfld" using f hm_rb by simp
    have same: "uns (hi' ! (ams ! (i + 1))) (vecfld_key_added p)
        = uns (hi' ! (arefs ! (i + 1))) (vecfld_key_added p)"
      using fld_b fld_r keep by simp
    have nocopy: "\<forall>a. uns (hi' ! (ams ! (i + 1))) (vecfld_key_added p)
        \<noteq> uns (deep_copy a (hi' ! (arefs ! (i + 1)))) (vecfld_key_added p)"
      using fld_b fld_r keep by simp
    have "obsm ?B0 (spatial_key p) = Some q"
      using q one by (simp add: with_field_def)
    with fld_b fld_r same nocopy show ?thesis
      using reg keep at_b call lists lens Si(2) False P by blast
  qed
qed

section \<open>\<^verbatim>\<open>morpho_align_ref\<close> on concrete samples\<close>

lemma morpho_align_ref_prefix_Inr:
  assumes "\<not> isl (morpho_align_ref_prefix E p rfa h models refs k)"
  obtains h0 ams arefs hk ak pk rk sk where
    "morpho_align_ref_init p h models refs = Inr (h0, ams, arefs)"
    and "morpho_align_ref_upto E p rfa h0 ams arefs k = Inr (hk, ak, pk, rk, sk)"
    and "morpho_align_ref_prefix E p rfa h models refs k = Inr (hk, ak, pk, rk, sk)"
proof -
  from assms obtain st where st: "morpho_align_ref_prefix E p rfa h models refs k = Inr st"
    by (cases "morpho_align_ref_prefix E p rfa h models refs k") auto
  obtain hk ak pk rk sk where st': "st = (hk, ak, pk, rk, sk)" by (cases st) auto
  from st obtain r where r: "morpho_align_ref_init p h models refs = Inr r"
    by (cases "morpho_align_ref_init p h models refs") (simp_all add: morpho_align_ref_prefix_def)
  obtain h0 ams arefs where r': "r = (h0, ams, arefs)" by (cases r) auto
  from st st' r r' have "morpho_align_ref_upto E p rfa h0 ams arefs k = Inr (hk, ak, pk, rk, sk)"
    by (simp add: morpho_align_ref_prefix_def)
  with that [of h0 ams arefs hk ak pk rk sk] r r' st st' show thesis by simp
qed

lemma heap7_length: "length heap7 = 7"
  by (simp add: heap7_def heap3_def)

text \<open>
  The theorem of claim C6 on three samples and three reference samples, after the first
  pair: the copy of the third sample (object 9) is still the copy of the input sample,
  without an output slot.
\<close>

theorem C6_output_slot_written_only_by_own_back_projection_witness:
  "slot_after (morpho_align_ref_prefix stub_ext default_params True heap7 [0, 1, 2] [3, 4, 5] 1)
       9 ''align_spatial'' = None
   \<and> obsm (heap7 ! 2) ''align_spatial'' = None"
proof -
  let ?pre = "morpho_align_ref_prefix stub_ext default_params True heap7 [0, 1, 2] [3, 4, 5] 1"
  have "\<not> isl ?pre" by code_simp
  then obtain h0 ams arefs hk ak pk rk sk where
    init: "morpho_align_ref_init default_params heap7 [0, 1, 2] [3, 4, 5] = Inr (h0, ams, arefs)"
    and reach: "morpho_align_ref_upto stub_ext default_params True h0 ams arefs 1
                  = Inr (hk, ak, pk, rk, sk)"
    and pre: "?pre = Inr (hk, ak, pk, rk, sk)"
    by (rule morpho_align_ref_prefix_Inr)
  have valid: "\<forall>m \<in> set [0, 1, 2] \<union> set [3, 4, 5]. m < length heap7"
    by (simp add: heap7_length)
  have j: "2 < length [0, 1, 2 :: nat]" and k: "1 \<le> length [0, 1, 2 :: nat] - 1" by simp_all
  have raw: "obsm (heap7 ! 2) ''align_spatial'' = None"
    by (simp add: heap7_def heap3_def sample_of_def)
  have a: "ams ! 2 = 9"
    using morpho_align_ref_init_Inr(1) [OF init] by (simp add: heap7_length)
  from C6_output_slot_written_only_by_own_back_projection [OF init valid j k reach]
  have "hk ! (ams ! 2) = deep_copy (ams ! 2) (heap7 ! ([0, 1, 2] ! 2))" by simp
  then have "obsm (hk ! 9) ''align_spatial'' = None" using a raw by simp
  with raw pre show ?thesis by (simp add: slot_after_def)
qed

text \<open>
  Claim C7 as stated fails in its last part. With three samples and a caller's reference
  list of four, \<^verbatim>\<open>morpho_align_ref\<close> returns a full-resolution chain of length 3 and
  a reference chain of length 4.
\<close>

theorem C7_chain_lengths_counterexample:
  "chain_lengths (morpho_align_ref stub_ext default_params None ''trn'' True heap7
      [0, 1, 2] (Some [3, 4, 5, 6])) = Some (3, 4)"
  by code_simp

text \<open>
  The theorem of claim C7 at the first pair: the copy of the second sample (object 8) and
  the copy of the second reference sample (object 11) hold the same reference, that of
  the field the registration of reference samples 4 and 5 made; a copy of the reference
  sample made for object 8 would hold another one.
\<close>

theorem C7_field_shared_and_passed_on_witness:
  "field_after (morpho_align_ref_prefix stub_ext default_params True heap7 [0, 1, 2] [3, 4, 5] 1)
      8 (Some ''VecFld_morpho'')
   = field_after (morpho_align_ref_prefix stub_ext default_params True heap7 [0, 1, 2] [3, 4, 5] 1)
      11 (Some ''VecFld_morpho'')
   \<and> field_after (morpho_align_ref_prefix stub_ext default_params True heap7 [0, 1, 2] [3, 4, 5] 1)
      11 (Some ''VecFld_morpho'') = Some [45]
   \<and> field_after (morpho_align_ref_prefix stub_ext default_params True heap7 [0, 1, 2] [3, 4, 5] 1)
      8 (Some ''VecFld_morpho'') \<noteq> Some [8, 45]"
proof -
  let ?E = stub_ext and ?p = default_params
  let ?pre = "morpho_align_ref_prefix ?E ?p True heap7 [0, 1, 2] [3, 4, 5] 1"
  have val: "field_after ?pre 11 (Some ''VecFld_morpho'') = Some [45]" by code_simp
  then have "\<not> isl ?pre" by (cases ?pre) (simp_all add: field_after_def)
  then obtain h0 ams arefs h1 a1 p1 r1 s1 where
    init: "morpho_align_ref_init ?p heap7 [0, 1, 2] [3, 4, 5] = Inr (h0, ams, arefs)"
    and succ: "morpho_align_ref_upto ?E ?p True h0 ams arefs (Suc 0) = Inr (h1, a1, p1, r1, s1)"
    and pre: "?pre = Inr (h1, a1, p1, r1, s1)"
    by (elim morpho_align_ref_prefix_Inr) simp
  have reach: "morpho_align_ref_upto ?E ?p True h0 ams arefs 0 = Inr (h0, arefs, [], [], [])"
    by (simp add: morpho_align_ref_upto_def)
  have i: "0 + 1 < length [0, 1, 2 :: nat]" by simp
  note I = morpho_align_ref_init_Inr [OF init]
  have b: "ams ! (0 + 1) = 8" and rb: "arefs ! (0 + 1) = 11"
    using I(1,2) by (simp_all add: heap7_length)
  from C7_field_shared_and_passed_on [OF init i reach succ] have
    "uns (h1 ! (ams ! (0 + 1))) (vecfld_key_added ?p)
       = uns (h1 ! (arefs ! (0 + 1))) (vecfld_key_added ?p)"
    "\<forall>a. uns (h1 ! (ams ! (0 + 1))) (vecfld_key_added ?p)
       \<noteq> uns (deep_copy a (h1 ! (arefs ! (0 + 1)))) (vecfld_key_added ?p)"
    by blast+
  then have "uns (h1 ! 8) (Some ''VecFld_morpho'') = uns (h1 ! 11) (Some ''VecFld_morpho'')"
    and "uns (h1 ! 8) (Some ''VecFld_morpho'')
       \<noteq> map_option ((#) 8) (uns (h1 ! 11) (Some ''VecFld_morpho''))"
    using b rb by (simp_all add: default_params_def)
  with pre val show ?thesis by (simp add: field_after_def)
qed

section \<open>The result lists\<close>

lemma morpho_align_ref_results_in_pair_order:
  assumes run: "morpho_align_ref E p ns sm rfa h models mref = Inr (h', ams, arefs', pis, pr, sg)"
    and k: "k + 1 < length models"
  shows "\<exists>h1 refs h0 arefs hk ak pk rk sk modelA_ref' modelB_ref' hb.
           reference_models E p ns sm h models mref = Inr (h1, refs)
         \<and> morpho_align_ref_init p h1 models refs = Inr (h0, ams, arefs)
         \<and> morpho_align_ref_upto E p rfa h0 ams arefs k = Inr (hk, ak, pk, rk, sk)
         \<and> BA_align E (p\<lparr>spatial_key := key_added p\<rparr>) None
               (hk ! (arefs ! k)) (hk ! (arefs ! (k + 1)))
             = Inr (modelA_ref', modelB_ref', pr ! k, sg ! k)
         \<and> back_project E p rfa (hk[arefs ! k := modelA_ref', arefs ! (k + 1) := modelB_ref'])
               (arefs ! (k + 1)) (ams ! k) (ams ! (k + 1)) (pr ! k)
             = Inr (hb, pis ! k)
         \<and> length pis = length models - 1 \<and> length pr = length models - 1
         \<and> length sg = length models - 1"
proof -
  from run obtain h1 refs h0 arefs where
    rm: "reference_models E p ns sm h models mref = Inr (h1, refs)"
    and init: "morpho_align_ref_init p h1 models refs = Inr (h0, ams, arefs)"
    and loop: "for_loop (align_pair_ref E p rfa ams) [0..<length ams - 1] (h0, arefs, [], [], [])
       = Inr (h', arefs', pis, pr, sg)"
    by (rule morpho_align_ref_Inr)
  have len: "length ams = length models"
    using morpho_align_ref_init_Inr(1) [OF init] by simp
  let ?body = "align_pair_ref E p rfa ams"
  let ?s0 = "(h0, arefs, [], [], [])"
  from k len have k1: "Suc k \<le> length ams - 1" by simp
  from for_loop_prefix [OF loop k1] obtain s1 where
    pre1: "for_loop ?body [0..<Suc k] ?s0 = Inr s1"
    and post1: "for_loop ?body [Suc k..<length ams - 1] s1 = Inr (h', arefs', pis, pr, sg)"
    by blast
  obtain hb a1 p1 r1 g1 where s1: "s1 = (hb, a1, p1, r1, g1)" by (cases s1) auto
  from pre1 [unfolded for_loop_upt_Suc] obtain sk where
    prek: "for_loop ?body [0..<k] ?s0 = Inr sk" and stepk: "?body k sk = Inr s1"
    by (cases "for_loop ?body [0..<k] ?s0") simp_all
  obtain hk ak pk rk gk where sk: "sk = (hk, ak, pk, rk, gk)" by (cases sk) auto
  have upto: "morpho_align_ref_upto E p rfa h0 ams arefs k = Inr (hk, ak, pk, rk, gk)"
    using prek sk by (simp add: morpho_align_ref_upto_def)
  note Sk = ref_upto_state [OF upto]
  from stepk [unfolded sk s1 Sk(2)] obtain A' B' P s2 P' where
    reg: "BA_align E (p\<lparr>spatial_key := key_added p\<rparr>) None
            (hk ! (arefs ! k)) (hk ! (arefs ! (k + 1))) = Inr (A', B', P, s2)"
    and bp: "back_project E p rfa (hk[arefs ! k := A', arefs ! (k + 1) := B']) (arefs ! (k + 1))
         (ams ! k) (ams ! (k + 1)) P = Inr (hb, P')"
    and l1: "p1 = pk @ [P']" "r1 = rk @ [P]" "g1 = gk @ [s2]"
    by (rule align_pair_ref_Inr)
  from ref_loop_lists [OF post1 [unfolded s1]] obtain ps rs ss where
    fin: "pis = p1 @ ps" "pr = r1 @ rs" "sg = g1 @ ss"
    by auto
  have at_k: "pis ! k = P'" "pr ! k = P" "sg ! k = s2"
    using fin l1 Sk(3,4,5) by (simp_all add: nth_append)
  from ref_loop_lists [OF loop] len
  have lens: "length pis = length models - 1" "length pr = length models - 1"
    "length sg = length models - 1" by auto
  from rm init upto reg bp at_k lens show ?thesis by blast
qed

text \<open>
  Claim C9. In both aligners the result lists follow the pairs. When \<^verbatim>\<open>morpho_align\<close>
  returns, for every pair index \<open>k\<close> the entries \<open>pis[k]\<close> and \<open>sigma2s[k]\<close> are
  the matrix and the variance that \<^verbatim>\<open>BA_align\<close> returned when it was called on working
  samples \<open>k\<close> and \<open>k + 1\<close> in the state reached after \<open>k\<close> pairs, and both lists have
  one entry per pair. When \<^verbatim>\<open>morpho_align_ref\<close> returns, \<open>pis_ref[k]\<close> and
  \<open>sigma2s[k]\<close> are what \<^verbatim>\<open>BA_align\<close> returned on reference samples \<open>k\<close> and
  \<open>k + 1\<close> after \<open>k\<close> pairs, \<open>pis[k]\<close> is the matrix that the back-projection of
  that same pair returned, and the three lists have one entry per pair.
\<close>

theorem C9_results_in_pair_order:
  "(morpho_align E p lk h models = Inr (h', align_models, pis, sigma2s) \<and> k + 1 < length models
      \<longrightarrow> (\<exists>h0 hk pk sk LabelSimMat modelA' modelB'.
             morpho_align_init p h models = Inr (h0, align_models)
           \<and> morpho_align_upto E p lk h0 align_models k = Inr (hk, pk, sk)
           \<and> BA_align E (p\<lparr>spatial_key := ''optimal_RnA''\<rparr>) LabelSimMat
                 (hk ! (align_models ! k)) (hk ! (align_models ! (k + 1)))
               = Inr (modelA', modelB', pis ! k, sigma2s ! k)
           \<and> length pis = length models - 1 \<and> length sigma2s = length models - 1))
   \<and> (morpho_align_ref E p ns sm rfa h models mref
         = Inr (h'', align_models', align_models_ref, pis', pis_ref, sigma2s')
       \<and> k + 1 < length models
      \<longrightarrow> (\<exists>h1 refs h0 arefs hk ak pk rk sk modelA_ref' modelB_ref' hb.
             reference_models E p ns sm h models mref = Inr (h1, refs)
           \<and> morpho_align_ref_init p h1 models refs = Inr (h0, align_models', arefs)
           \<and> morpho_align_ref_upto E p rfa h0 align_models' arefs k = Inr (hk, ak, pk, rk, sk)
           \<and> BA_align E (p\<lparr>spatial_key := key_added p\<rparr>) None
                 (hk ! (arefs ! k)) (hk ! (arefs ! (k + 1)))
               = Inr (modelA_ref', modelB_ref', pis_ref ! k, sigma2s' ! k)
           \<and> back_project E p rfa (hk[arefs ! k := modelA_ref', arefs ! (k + 1) := modelB_ref'])
                 (arefs ! (k + 1)) (align_models' ! k) (align_models' ! (k + 1)) (pis_ref ! k)
               = Inr (hb, pis' ! k)
           \<and> length pis' = length models - 1 \<and> length pis_ref = length models - 1
           \<and> length sigma2s' = length models - 1))"
proof (intro conjI impI)
  assume "morpho_align E p lk h models = Inr (h', align_models, pis, sigma2s)
      \<and> k + 1 < length models"
  then show "\<exists>h0 hk pk sk LabelSimMat modelA' modelB'.
             morpho_align_init p h models = Inr (h0, align_models)
           \<and> morpho_align_upto E p lk h0 align_models k = Inr (hk, pk, sk)
           \<and> BA_align E (p\<lparr>spatial_key := ''optimal_RnA''\<rparr>) LabelSimMat
                 (hk ! (align_models ! k)) (hk ! (align_models ! (k + 1)))
               = Inr (modelA', modelB', pis ! k, sigma2s ! k)
           \<and> length pis = length models - 1 \<and> length sigma2s = length models - 1"
    by (elim conjE) (rule morpho_align_results_in_pair_order)
next
  assume "morpho_align_ref E p ns sm rfa h models mref
         = Inr (h'', align_models', align_models_ref, pis', pis_ref, sigma2s')
       \<and> k + 1 < length models"
  then show "\<exists>h1 refs h0 arefs hk ak pk rk sk modelA_ref' modelB_ref' hb.
             reference_models E p ns sm h models mref = Inr (h1, refs)
           \<and> morpho_align_ref_init p h1 models refs = Inr (h0, align_models', arefs)
           \<and> morpho_align_ref_upto E p rfa h0 align_models' arefs k = Inr (hk, ak, pk, rk, sk)
           \<and> BA_align E (p\<lparr>spatial_key := key_added p\<rparr>) None
                 (hk ! (arefs ! k)) (hk ! (arefs ! (k + 1)))
               = Inr (modelA_ref', modelB_ref', pis_ref ! k, sigma2s' ! k)
           \<and> back_project E p rfa (hk[arefs ! k := modelA_ref', arefs ! (k + 1) := modelB_ref'])
                 (arefs ! (k + 1)) (align_models' ! k) (align_models' ! (k + 1)) (pis_ref ! k)
               = Inr (hb, pis' ! k)
           \<and> length pis' = length models - 1 \<and> length pis_ref = length models - 1
           \<and> length sigma2s' = length models - 1"
    by (elim conjE) (rule morpho_align_ref_results_in_pair_order)
qed

text \<open>
  The theorem of claim C9 at the second pair of three samples, for each aligner: with the
  stand-in registration the variance is the matrix plus 100, so the entries at index 1
  come from one and the same call.
\<close>

theorem C9_results_in_pair_order_witness:
  "pair_results (morpho_align stub_ext default_params None heap3 [0, 1, 2]) 1 = Some (123, 223)
   \<and> pair_results_ref (morpho_align_ref stub_ext default_params None ''trn'' True heap7
        [0, 1, 2] (Some [3, 4, 5])) 1 = Some (5066, 166, 266)"
proof -
  let ?E = stub_ext and ?p = default_params
  let ?r = "morpho_align ?E ?p None heap3 [0, 1, 2]"
  let ?q = "morpho_align_ref ?E ?p None ''trn'' True heap7 [0, 1, 2] (Some [3, 4, 5])"
  have v1: "map_option fst (pair_results ?r 1) = Some 123" by code_simp
  have v2: "map_option (\<lambda>(a, b, c). (a, b)) (pair_results_ref ?q 1) = Some (5066, 166)"
    by code_simp
  from v1 obtain h' ams pis sig where run: "?r = Inr (h', ams, pis, sig)"
    by (cases ?r) (auto simp: pair_results_def)
  from v2 obtain h'' ams' arefs' pis' pr sg where
    run': "?q = Inr (h'', ams', arefs', pis', pr, sg)"
    by (cases ?q) (auto simp: pair_results_ref_def)
  have k: "1 + 1 < length [0, 1, 2 :: nat]" by simp
  have stub: "y = x + 100" if "BA_align ?E q m A B = Inr (A', B', x, y)" for q m A B A' B' x y
    using that by (auto simp: stub_ext_def stub_BA_align_def split: option.splits)
  from C9_results_in_pair_order [THEN conjunct1, rule_format, OF conjI [OF run k]]
  obtain q m A B A' B' where "BA_align ?E q m A B = Inr (A', B', pis ! 1, sig ! 1)"
    by blast
  then have "sig ! 1 = pis ! 1 + 100" by (rule stub)
  with v1 run have one: "pair_results ?r 1 = Some (123, 223)"
    by (simp add: pair_results_def)
  from C9_results_in_pair_order [THEN conjunct2, rule_format, OF conjI [OF run' k]]
  obtain q' m' C D C' D' where "BA_align ?E q' m' C D = Inr (C', D', pr ! 1, sg ! 1)"
    by blast
  then have "sg ! 1 = pr ! 1 + 100" by (rule stub)
  with v2 run' have two: "pair_results_ref ?q 1 = Some (5066, 166, 266)"
    by (simp add: pair_results_ref_def)
  from one two show ?thesis by simp
qed

end
